theory Spec2Isabelle
  imports Complex_Main "HOL-Library.AList" "HOL-Library.Log_Nat"
begin

section \<open>The OTP manager of Bite Me Buddy\<close>

text \<open>
  The class \<open>OTPManager\<close> keeps one record per order in a JavaScript \<open>Map\<close>
  (\<open>this.otpStore\<close>). The map is modelled as an association list in insertion order, the
  order in which \<open>Map\<close> iterates: \<open>Map.set\<close> is \<open>AList.update\<close> (an existing key keeps
  its place, a new key goes to the end), \<open>Map.get\<close> is \<open>map_of\<close> and \<open>Map.delete\<close> is
  \<open>AList.delete\<close>. A \<open>Map\<close> never holds a key twice; the predicate \<open>wf_store\<close> says so.
  Order identifiers are of any type \<open>'k\<close>; codes, phone numbers and messages are strings.

  Every method is a function from the store (and its arguments) to the value it returns and
  the store it leaves behind. Two inputs the methods read from their environment are explicit
  arguments: the clock and the random number. \<open>generateOTP\<close> calls \<open>Date.now()\<close>
  twice, once for \<open>generatedAt\<close> and once for \<open>expiresAt\<close>, and takes both readings
  (\<open>now1\<close>, \<open>now2\<close>, in milliseconds); every other method is given the one clock value
  \<open>now\<close> of its call. \<open>rnd\<close> is the value of \<open>Math.random()\<close>, a double that is at
  least 0 and below 1.

  Numbers that the code keeps integral are \<open>int\<close>. The two places where the code leaves
  the integers, \<open>1000 + Math.random() * 9000\<close> and \<open>(verified / total) * 100\<close>, are
  computed as JavaScript computes them, in double precision: each operation returns the
  exact result rounded to the nearest double, a tie going to the even one
  (\<open>double_round\<close>). Overflow to \<open>Infinity\<close> is not modelled: no number of this file
  comes near \<open>2 ^ 1024\<close>.

  \<open>saveToStorage\<close> (a copy of the store into \<open>localStorage\<close>) and \<open>sendOTPSMS\<close>
  (a console line and a notification) do not touch the store and are left out.
\<close>

subsection \<open>Data\<close>

record otp_data =
  otp :: string
  phone :: string
  attempts :: int
  generatedAt :: int
  expiresAt :: int
  verified :: bool
  verifiedAt :: "int option"

type_synonym 'k otp_store = "('k \<times> otp_data) list"

definition wf_store :: "'k otp_store \<Rightarrow> bool" where
  "wf_store store = distinct (map fst store)"

text \<open>The constructor's constants: \<open>this.otpExpiry = 5 * 60 * 1000\<close>, \<open>this.maxAttempts = 3\<close>.\<close>

definition otpExpiry :: int where
  "otpExpiry = 5 * 60 * 1000"

definition maxAttempts :: int where
  "maxAttempts = 3"

record op_result =
  success :: bool
  message :: string

record verify_result = op_result +
  remainingAttempts :: int

record resend_result = op_result +
  resend_otp :: "string option"

record otp_status =
  status_exists :: bool
  status_verified :: bool
  status_expired :: bool
  status_attempts :: int
  status_remainingAttempts :: int
  status_timeRemaining :: int

text \<open>\<open>successRate\<close> is the number \<open>0\<close> or the string that \<open>toFixed(1)\<close> returns.\<close>

datatype js_value = JSNum int | JSStr string

record otp_statistics =
  stat_total :: int
  stat_verified :: int
  stat_expired :: int
  stat_active :: int
  stat_successRate :: js_value

subsection \<open>Double precision\<close>

text \<open>
  A finite double is 0 or \<open>m * 2 ^ e\<close> with an integer \<open>m\<close> of at most 53 bits and
  \<open>e \<ge> -1074\<close>. \<open>binade x\<close> is the exponent \<open>k\<close> with \<open>2 ^ k \<le> x < 2 ^ (k + 1)\<close>, for
  \<open>x > 0\<close>; the doubles of that size are the multiples of \<open>2 ^ (k - 52)\<close>, or of
  \<open>2 ^ -1074\<close> for the subnormal ones. \<open>double_round\<close> is round to nearest, ties to even,
  the rounding of every arithmetic operation on JavaScript numbers.
\<close>

definition round_half_even :: "real \<Rightarrow> int" where
  "round_half_even y =
     (let f = \<lfloor>y\<rfloor>; r = y - of_int f
      in if r < 1 / 2 then f else if 1 / 2 < r then f + 1 else if even f then f else f + 1)"

definition binade :: "real \<Rightarrow> int" where
  "binade x = (if 1 \<le> x then bitlen \<lfloor>x\<rfloor> - 1 else - bitlen (\<lceil>1 / x\<rceil> - 1))"

definition double_exponent :: "real \<Rightarrow> int" where
  "double_exponent x = max (binade \<bar>x\<bar> - 52) (- 1074)"

definition double_round :: "real \<Rightarrow> real" where
  "double_round x =
     (if x = 0 then 0
      else of_int (round_half_even (x / 2 powi double_exponent x)) * 2 powi double_exponent x)"

definition is_double :: "real \<Rightarrow> bool" where
  "is_double x = (double_round x = x \<and> \<bar>x\<bar> < 2 ^ 1024)"

text \<open>The operators \<open>*\<close>, \<open>+\<close> and \<open>/\<close> on JavaScript numbers.\<close>

definition js_times :: "real \<Rightarrow> real \<Rightarrow> real" where
  "js_times a b = double_round (a * b)"

definition js_plus :: "real \<Rightarrow> real \<Rightarrow> real" where
  "js_plus a b = double_round (a + b)"

definition js_divide :: "real \<Rightarrow> real \<Rightarrow> real" where
  "js_divide a b = double_round (a / b)"

subsection \<open>Numbers as text\<close>

text \<open>\<open>Number.prototype.toString\<close> on an integer: its decimal digits, with a sign.\<close>

definition digit_char :: "nat \<Rightarrow> char" where
  "digit_char d = ''0123456789'' ! d"

fun digits :: "nat \<Rightarrow> string" where
  "digits n = (if n < 10 then [digit_char n] else digits (n div 10) @ [digit_char (n mod 10)])"

declare digits.simps [simp del]

definition toString :: "int \<Rightarrow> string" where
  "toString n = (if n < 0 then ''-'' @ digits (nat (- n)) else digits (nat n))"

text \<open>
  \<open>x.toFixed(1)\<close> for a double \<open>x \<ge> 0\<close>: the integer \<open>n\<close> for which \<open>n / 10\<close> is
  nearest to the exact value of \<open>x\<close> (the larger one on a tie), written with its last digit
  after the point.
\<close>

definition toFixed1 :: "real \<Rightarrow> string" where
  "toFixed1 x = (let n = \<lfloor>x * 10 + 1 / 2\<rfloor> in toString (n div 10) @ ''.'' @ toString (n mod 10))"

subsection \<open>The methods\<close>

text \<open>
  \<open>generateOTP\<close>: \<open>Math.floor(1000 + Math.random() * 9000).toString()\<close>, then
  \<open>otpStore.set\<close> of a fresh record, whose \<open>generatedAt\<close> is the first reading of the
  clock and whose \<open>expiresAt\<close> is the second one plus \<open>otpExpiry\<close>. A record literal has no
  \<open>verifiedAt\<close> field.
\<close>

definition generateOTP ::
  "'k otp_store \<Rightarrow> 'k \<Rightarrow> string \<Rightarrow> real \<Rightarrow> int \<Rightarrow> int \<Rightarrow> string \<times> 'k otp_store" where
  "generateOTP store orderId phoneNumber rnd now1 now2 =
    (let otp_v = toString \<lfloor>js_plus 1000 (js_times rnd 9000)\<rfloor> in
      (otp_v,
       AList.update orderId
         \<lparr>otp = otp_v, phone = phoneNumber, attempts = 0, generatedAt = now1,
          expiresAt = now2 + otpExpiry, verified = False, verifiedAt = None\<rparr> store))"

text \<open>\<open>verifyOTP\<close>, branch by branch in the order of the source.\<close>

definition verifyOTP :: "'k otp_store \<Rightarrow> 'k \<Rightarrow> string \<Rightarrow> int \<Rightarrow> verify_result \<times> 'k otp_store" where
  "verifyOTP store orderId inputOTP now =
    (case map_of store orderId of
      None \<Rightarrow>
        (\<lparr>success = False, message = ''OTP not found or expired'', remainingAttempts = 0\<rparr>, store)
    | Some otpData \<Rightarrow>
        if now > expiresAt otpData then
          (\<lparr>success = False, message = ''OTP has expired'', remainingAttempts = 0\<rparr>,
           AList.delete orderId store)
        else if attempts otpData \<ge> maxAttempts then
          (\<lparr>success = False, message = ''Maximum OTP attempts exceeded'', remainingAttempts = 0\<rparr>,
           store)
        else
          let otpData1 = otpData\<lparr>attempts := attempts otpData + 1\<rparr> in
          if otp otpData1 = inputOTP then
            let otpData2 = otpData1\<lparr>verified := True, verifiedAt := Some now\<rparr> in
            (\<lparr>success = True, message = ''OTP verified successfully'',
              remainingAttempts = maxAttempts - attempts otpData2\<rparr>,
             AList.update orderId otpData2 store)
          else
            let remaining = maxAttempts - attempts otpData1 in
            (\<lparr>success = False,
              message = ''Invalid OTP. '' @ toString remaining @ '' attempt''
                        @ (if remaining \<noteq> 1 then ''s'' else '''') @ '' remaining'',
              remainingAttempts = remaining\<rparr>,
             AList.update orderId otpData1 store))"

text \<open>
  \<open>checkOTPStatus\<close>. \<open>Math.ceil(timeRemaining / 1000)\<close> is the ceiling of a real quotient.
\<close>

definition checkOTPStatus :: "'k otp_store \<Rightarrow> 'k \<Rightarrow> int \<Rightarrow> otp_status \<times> 'k otp_store" where
  "checkOTPStatus store orderId now =
    (case map_of store orderId of
      None \<Rightarrow>
        (\<lparr>status_exists = False, status_verified = False, status_expired = True,
          status_attempts = 0, status_remainingAttempts = 0, status_timeRemaining = 0\<rparr>, store)
    | Some otpData \<Rightarrow>
        let timeRemaining = max 0 (expiresAt otpData - now);
            remaining = max 0 (maxAttempts - attempts otpData)
        in (\<lparr>status_exists = True, status_verified = (verified otpData \<or> False),
             status_expired = (timeRemaining = 0), status_attempts = attempts otpData,
             status_remainingAttempts = remaining,
             status_timeRemaining = \<lceil>real_of_int timeRemaining / 1000\<rceil>\<rparr>, store))"

text \<open>
  \<open>resendOTP\<close> calls \<open>generateOTP\<close> with the phone number of the stored record; the
  random number and the two clock readings are those of that call.
\<close>

definition resendOTP ::
  "'k otp_store \<Rightarrow> 'k \<Rightarrow> real \<Rightarrow> int \<Rightarrow> int \<Rightarrow> resend_result \<times> 'k otp_store" where
  "resendOTP store orderId rnd now1 now2 =
    (case map_of store orderId of
      None \<Rightarrow>
        (\<lparr>success = False, message = ''Cannot resend OTP. Please generate a new one.'',
          resend_otp = None\<rparr>, store)
    | Some otpData \<Rightarrow>
        let (newOTP, store1) = generateOTP store orderId (phone otpData) rnd now1 now2 in
        (\<lparr>success = True, message = ''New OTP sent successfully'', resend_otp = Some newOTP\<rparr>,
         store1))"

text \<open>
  \<open>cleanupExpiredOTPs\<close>: the \<open>for\<close> loop over \<open>otpStore.entries()\<close>, which deletes the
  entry it is visiting when \<open>now > otpData.expiresAt + 300000\<close> and counts the deletions.
\<close>

fun cleanup_loop :: "int \<Rightarrow> ('k \<times> otp_data) list \<Rightarrow> nat \<times> 'k otp_store \<Rightarrow> nat \<times> 'k otp_store" where
  "cleanup_loop now [] acc = acc"
| "cleanup_loop now ((orderId, otpData) # rest) (cleanedCount, store) =
    cleanup_loop now rest
      (if now > expiresAt otpData + 300000
       then (cleanedCount + 1, AList.delete orderId store)
       else (cleanedCount, store))"

definition cleanupExpiredOTPs :: "'k otp_store \<Rightarrow> int \<Rightarrow> nat \<times> 'k otp_store" where
  "cleanupExpiredOTPs store now = cleanup_loop now store (0, store)"

text \<open>
  \<open>getStatistics\<close>: three counts over \<open>otpStore.values()\<close>, and
  \<open>((verified / total) * 100).toFixed(1)\<close> on doubles.
\<close>

definition getStatistics :: "'k otp_store \<Rightarrow> int \<Rightarrow> otp_statistics" where
  "getStatistics store now =
    (let total = int (length store);
         verified_n = int (length (filter (\<lambda>data. verified data) (map snd store)));
         expired_n = int (length (filter (\<lambda>data. now > expiresAt data) (map snd store)))
     in \<lparr>stat_total = total, stat_verified = verified_n, stat_expired = expired_n,
         stat_active = total - verified_n - expired_n,
         stat_successRate =
           (if total > 0
            then JSStr (toFixed1 (js_times (js_divide (real_of_int verified_n) (real_of_int total)) 100))
            else JSNum 0)\<rparr>)"

subsection \<open>Sequences of calls\<close>

text \<open>
  A call of one of the methods, with the clock value at which it runs; \<open>Generate\<close> and
  \<open>Resend\<close> carry the second clock reading of \<open>generateOTP\<close> as their last argument.
  \<open>run\<close> starts from the empty store of the constructor and keeps the store each call
  leaves behind.
\<close>

datatype 'k operation =
    Generate 'k string real int
  | Verify 'k string
  | Resend 'k real int
  | CheckStatus 'k
  | Sweep
  | Statistics

fun step :: "'k otp_store \<Rightarrow> 'k operation \<times> int \<Rightarrow> 'k otp_store" where
  "step store (Generate orderId phoneNumber rnd now2, now) =
     snd (generateOTP store orderId phoneNumber rnd now now2)"
| "step store (Verify orderId inputOTP, now) = snd (verifyOTP store orderId inputOTP now)"
| "step store (Resend orderId rnd now2, now) = snd (resendOTP store orderId rnd now now2)"
| "step store (CheckStatus orderId, now) = snd (checkOTPStatus store orderId now)"
| "step store (Sweep, now) = snd (cleanupExpiredOTPs store now)"
| "step store (Statistics, now) = store"

definition run :: "('k operation \<times> int) list \<Rightarrow> 'k otp_store" where
  "run ops = foldl step [] ops"

subsection \<open>Predicates on stores\<close>

text \<open>
  The bound on \<open>attempts\<close>, and the test of the sweep: a record is past its grace window
  when \<open>now > expiresAt + 300000\<close>, five minutes after its expiry.
\<close>

definition attempts_bounded :: "'k otp_store \<Rightarrow> bool" where
  "attempts_bounded store =
     list_all (\<lambda>(orderId, otpData). 0 \<le> attempts otpData \<and> attempts otpData \<le> maxAttempts) store"

definition past_grace :: "int \<Rightarrow> 'k \<times> otp_data \<Rightarrow> bool" where
  "past_grace now entry = (now > expiresAt (snd entry) + 300000)"

subsection \<open>Reading a code back\<close>

text \<open>
  What it means for a string to be a numeric code: every character is a decimal digit, and
  \<open>decimal_value\<close> is the number the digits denote.
\<close>

definition is_digit :: "char \<Rightarrow> bool" where
  "is_digit c = (c \<in> set ''0123456789'')"

definition digit_value :: "char \<Rightarrow> nat" where
  "digit_value c = of_char c - 48"

definition decimal_value :: "string \<Rightarrow> nat" where
  "decimal_value s = foldl (\<lambda>a c. 10 * a + digit_value c) 0 s"

subsection \<open>Example records and calls\<close>

text \<open>
  Records as \<open>generateOTP\<close> and \<open>verifyOTP\<close> leave them, all generated at time 0 unless
  said otherwise: unused; one wrong attempt; verified at the first attempt; verified with all
  attempts used; and one generated at 200000 with two wrong attempts.
\<close>

definition fresh_record :: otp_data where
  "fresh_record = \<lparr>otp = ''5500'', phone = ''9876543210'', attempts = 0, generatedAt = 0,
     expiresAt = 300000, verified = False, verifiedAt = None\<rparr>"

definition pending_record :: otp_data where
  "pending_record = \<lparr>otp = ''4821'', phone = ''9876543210'', attempts = 1, generatedAt = 0,
     expiresAt = 300000, verified = False, verifiedAt = None\<rparr>"

definition verified_record :: otp_data where
  "verified_record = \<lparr>otp = ''4821'', phone = ''9876543210'', attempts = 1, generatedAt = 0,
     expiresAt = 300000, verified = True, verifiedAt = Some 1000\<rparr>"

definition stale_record :: otp_data where
  "stale_record = \<lparr>otp = ''1234'', phone = ''9876543210'', attempts = 3, generatedAt = 0,
     expiresAt = 300000, verified = True, verifiedAt = Some 5\<rparr>"

definition recent_record :: otp_data where
  "recent_record = \<lparr>otp = ''7310'', phone = ''9123456780'', attempts = 2, generatedAt = 200000,
     expiresAt = 500000, verified = False, verifiedAt = None\<rparr>"

text \<open>
  \<open>generateOTP\<close> for order 1, then \<open>verifyOTP\<close> with the code it returned, all at one
  clock value.
\<close>

definition first_verify :: "nat otp_store \<Rightarrow> real \<Rightarrow> int \<Rightarrow> verify_result" where
  "first_verify store rnd now =
     fst (verifyOTP (snd (generateOTP store 1 ''9876543210'' rnd now now)) 1
            (fst (generateOTP store 1 ''9876543210'' rnd now now)) now)"

text \<open>\<open>generateOTP\<close> on the empty store while the clock goes from 0 to 1.\<close>

definition ticking_generate :: "nat otp_store" where
  "ticking_generate = snd (generateOTP [] 1 ''9876543210'' (1 / 2) 0 1)"

text \<open>Several \<open>verifyOTP\<close> calls for one order, one after the other, with their results.\<close>

fun verify_seq :: "'k otp_store \<Rightarrow> 'k \<Rightarrow> (string \<times> int) list \<Rightarrow> verify_result list \<times> 'k otp_store" where
  "verify_seq store orderId [] = ([], store)"
| "verify_seq store orderId ((inputOTP, now) # calls) =
    (let result = verifyOTP store orderId inputOTP now;
         rest = verify_seq (snd result) orderId calls
     in (fst result # fst rest, snd rest))"

text \<open>
  One order: \<open>generateOTP\<close> at \<open>t0\<close> (both readings), \<open>verifyOTP\<close> with the returned
  code at \<open>t1\<close>, and a sweep at \<open>t2\<close>.
\<close>

definition verified_then_expired :: "'k \<Rightarrow> string \<Rightarrow> real \<Rightarrow> int \<Rightarrow> int \<Rightarrow> int \<Rightarrow> 'k otp_store" where
  "verified_then_expired orderId phoneNumber rnd t0 t1 t2 =
     run [(Generate orderId phoneNumber rnd t0, t0),
          (Verify orderId (fst (generateOTP [] orderId phoneNumber rnd t0 t0)), t1),
          (Sweep, t2)]"



section \<open>Properties\<close>

subsection \<open>Rounding to doubles\<close>

lemma rhe_le: "y \<le> of_int m \<Longrightarrow> round_half_even y \<le> m"
  unfolding round_half_even_def Let_def by (auto; linarith)

lemma rhe_ge: "of_int m \<le> y \<Longrightarrow> m \<le> round_half_even y"
  unfolding round_half_even_def Let_def by (auto; linarith)

lemma rhe_upper: "of_int (round_half_even y) \<le> y + 1 / 2"
  unfolding round_half_even_def Let_def by (auto; linarith)

lemma rhe_lower: "y - 1 / 2 \<le> of_int (round_half_even y)"
  unfolding round_half_even_def Let_def by (auto; linarith)

lemma rhe_int [simp]: "round_half_even (of_int m) = m"
  unfolding round_half_even_def Let_def by simp

lemma binade_bounds:
  assumes "0 < x"
  shows "2 powi binade x \<le> x \<and> x < 2 powi (binade x + 1)"
proof (cases "1 \<le> x")
  case True
  define n where "n = \<lfloor>x\<rfloor>"
  have n: "0 < n" "of_int n \<le> x" "x < of_int n + 1"
    using True unfolding n_def by (simp_all; linarith)+
  from bitlen_bounds [OF n(1)]
  have b: "2 ^ nat (bitlen n - 1) \<le> n" "n < 2 ^ nat (bitlen n)" by simp_all
  have pos: "1 \<le> bitlen n"
    using n(1) bitlen_eq_zero_iff [of n] bitlen_nonneg [of n] by linarith
  have lo: "(2::real) powi (bitlen n - 1) \<le> of_int n"
  proof -
    have "(2::real) powi (bitlen n - 1) = of_int (2 ^ nat (bitlen n - 1))"
      using pos by (simp add: power_int_def)
    also have "\<dots> \<le> of_int n" using b(1) by (simp only: of_int_le_iff)
    finally show ?thesis .
  qed
  have hi: "of_int n + 1 \<le> (2::real) powi bitlen n"
  proof -
    have "n + 1 \<le> 2 ^ nat (bitlen n)" using b(2) by simp
    then have "(of_int (n + 1) :: real) \<le> of_int (2 ^ nat (bitlen n))"
      by (simp only: of_int_le_iff)
    also have "\<dots> = 2 powi bitlen n"
      using pos by (simp add: power_int_def)
    finally show ?thesis by simp
  qed
  have "binade x = bitlen n - 1"
    using True by (simp add: binade_def n_def)
  with lo hi n show ?thesis by simp
next
  case False
  define c where "c = \<lceil>1 / x\<rceil>"
  have x1: "1 < 1 / x" using assms False by simp
  have c: "1 / x \<le> of_int c" "of_int c - 1 < 1 / x"
    unfolding c_def by linarith+
  have m: "0 < c - 1" using x1 c(1) by linarith
  from bitlen_bounds [OF m]
  have b: "2 ^ nat (bitlen (c - 1) - 1) \<le> c - 1" "c - 1 < 2 ^ nat (bitlen (c - 1))" by simp_all
  define j where "j = bitlen (c - 1)"
  have pos: "1 \<le> j"
    using m bitlen_eq_zero_iff [of "c - 1"] bitlen_nonneg [of "c - 1"] unfolding j_def by linarith
  have le: "1 / x \<le> 2 ^ nat j"
  proof -
    have "c \<le> 2 ^ nat j" using b(2) unfolding j_def by simp
    then have "(of_int c :: real) \<le> of_int (2 ^ nat j)" by (simp only: of_int_le_iff)
    then have "(of_int c :: real) \<le> 2 ^ nat j" by simp
    with c(1) show ?thesis by linarith
  qed
  have gt: "2 ^ nat (j - 1) < 1 / x"
  proof -
    have "(of_int (2 ^ nat (j - 1)) :: real) \<le> of_int (c - 1)"
      using b(1) unfolding j_def by (simp only: of_int_le_iff)
    then have "(2 ^ nat (j - 1) :: real) \<le> of_int c - 1" by simp
    with c(2) show ?thesis by linarith
  qed
  have bin: "binade x = - j"
    using False by (simp add: binade_def c_def j_def)
  have p1: "(2::real) powi (- j) = 1 / 2 ^ nat j"
    using pos by (simp only: power_int_minus_divide) (simp add: power_int_nonneg_exp)
  have "(2::real) powi (- (j - 1)) = 1 / 2 ^ nat (j - 1)"
    using pos by (simp only: power_int_minus_divide) (simp add: power_int_nonneg_exp)
  moreover have "- (j - 1) = - j + 1"
    by simp
  ultimately have p2: "(2::real) powi (- j + 1) = 1 / 2 ^ nat (j - 1)"
    by (simp only:)
  have "1 / 2 ^ nat j \<le> x"
    using le assms by (simp add: field_simps)
  moreover have "x < 1 / 2 ^ nat (j - 1)"
    using gt assms by (simp add: field_simps)
  ultimately show ?thesis by (simp only: bin p1 p2)
qed

lemma binade_unique:
  assumes "2 powi k \<le> x" and "x < 2 powi (k + 1)"
  shows "binade x = k"
proof -
  have pos: "0 < x"
  proof -
    have "0 < (2::real) powi k" by simp
    with assms(1) show ?thesis by linarith
  qed
  from binade_bounds [OF pos]
  have b: "2 powi binade x \<le> x" "x < 2 powi (binade x + 1)" by simp_all
  have "binade x < k + 1"
  proof (rule ccontr)
    assume "\<not> binade x < k + 1"
    then have "(2::real) powi (k + 1) \<le> 2 powi binade x"
      by (intro power_int_increasing) simp_all
    with b(1) assms(2) show False by linarith
  qed
  moreover have "k < binade x + 1"
  proof (rule ccontr)
    assume "\<not> k < binade x + 1"
    then have "(2::real) powi (binade x + 1) \<le> 2 powi k"
      by (intro power_int_increasing) simp_all
    with b(2) assms(1) show False by linarith
  qed
  ultimately show ?thesis by linarith
qed


lemma double_round_eq:
  assumes "2 powi k \<le> \<bar>x\<bar>" and "\<bar>x\<bar> < 2 powi (k + 1)"
  shows "double_round x =
    of_int (round_half_even (x / 2 powi max (k - 52) (- 1074))) * 2 powi max (k - 52) (- 1074)"
proof -
  have k: "binade \<bar>x\<bar> = k"
    using assms by (rule binade_unique)
  have "0 < (2::real) powi k"
    by simp
  with assms(1) have "0 < \<bar>x\<bar>"
    by linarith
  then have "x \<noteq> 0"
    by simp
  with k show ?thesis
    by (simp add: double_round_def double_exponent_def)
qed

lemma double_round_nonneg:
  assumes "0 \<le> x"
  shows "0 \<le> double_round x"
proof (cases "x = 0")
  case True
  then show ?thesis by (simp add: double_round_def)
next
  case False
  have "0 \<le> x / 2 powi double_exponent x"
    using assms by simp
  then have "(of_int 0 :: real) \<le> x / 2 powi double_exponent x"
    by simp
  then have "0 \<le> round_half_even (x / 2 powi double_exponent x)"
    by (rule rhe_ge)
  then show ?thesis
    using False by (simp add: double_round_def)
qed

lemma double_round_ge:
  assumes "2 powi k \<le> x" and "x < 2 powi (k + 1)"
    and "c \<le> x" and "c = of_int m * 2 powi max (k - 52) (- 1074)"
  shows "c \<le> double_round x"
proof -
  let ?u = "(2::real) powi max (k - 52) (- 1074)"
  have u: "0 < ?u" by simp
  have x: "0 < x"
  proof -
    have "0 < (2::real) powi k" by simp
    with assms(1) show ?thesis by linarith
  qed
  have "of_int m = c / ?u"
    using assms(4) u by simp
  also have "\<dots> \<le> x / ?u"
    using assms(3) u by (simp add: divide_right_mono)
  finally have "m \<le> round_half_even (x / ?u)"
    by (rule rhe_ge)
  then have "of_int m * ?u \<le> of_int (round_half_even (x / ?u)) * ?u"
    using u by (simp add: mult_right_mono)
  moreover have "double_round x = of_int (round_half_even (x / ?u)) * ?u"
    using assms(1,2) x by (intro double_round_eq) simp_all
  ultimately show ?thesis
    using assms(4) by simp
qed

lemma double_round_le:
  assumes "2 powi k \<le> x" and "x < 2 powi (k + 1)"
    and "x \<le> c" and "c = of_int m * 2 powi max (k - 52) (- 1074)"
  shows "double_round x \<le> c"
proof -
  let ?u = "(2::real) powi max (k - 52) (- 1074)"
  have u: "0 < ?u" by simp
  have x: "0 < x"
  proof -
    have "0 < (2::real) powi k" by simp
    with assms(1) show ?thesis by linarith
  qed
  have "x / ?u \<le> c / ?u"
    using assms(3) u by (simp add: divide_right_mono)
  also have "\<dots> = of_int m"
    using assms(4) u by simp
  finally have "round_half_even (x / ?u) \<le> m"
    by (rule rhe_le)
  then have "of_int (round_half_even (x / ?u)) * ?u \<le> of_int m * ?u"
    using u by (simp add: mult_right_mono)
  moreover have "double_round x = of_int (round_half_even (x / ?u)) * ?u"
    using assms(1,2) x by (intro double_round_eq) simp_all
  ultimately show ?thesis
    using assms(4) by simp
qed

lemma double_round_le_pow:
  assumes "0 < x" and "x < 2 powi k" and "- 1073 \<le> k"
  shows "double_round x \<le> 2 powi k"
proof -
  define e where "e = double_exponent x"
  let ?u = "(2::real) powi e"
  have u: "0 < ?u" by simp
  from binade_bounds [OF assms(1)] have b: "2 powi binade x \<le> x" by simp
  have "binade x < k"
  proof (rule ccontr)
    assume "\<not> binade x < k"
    then have "(2::real) powi k \<le> 2 powi binade x"
      by (intro power_int_increasing) simp_all
    with b assms(2) show False by linarith
  qed
  then have ek: "0 \<le> k - e"
    using assms(1,3) by (simp add: e_def double_exponent_def)
  have "(2::real) powi k = 2 powi ((k - e) + e)"
    by simp
  also have "\<dots> = 2 powi (k - e) * ?u"
    by (rule power_int_add) simp
  also have "(2::real) powi (k - e) = of_int (2 ^ nat (k - e))"
    using ek by (simp add: power_int_nonneg_exp)
  finally have pk: "(2::real) powi k = of_int (2 ^ nat (k - e)) * ?u" .
  have "x / ?u \<le> 2 powi k / ?u"
    using assms(2) u by (simp add: divide_right_mono)
  also have "\<dots> = of_int (2 ^ nat (k - e))"
    using u by (simp only: pk) simp
  finally have "round_half_even (x / ?u) \<le> 2 ^ nat (k - e)"
    by (rule rhe_le)
  then have "of_int (round_half_even (x / ?u)) * ?u \<le> of_int (2 ^ nat (k - e)) * ?u"
    using u by (simp only: mult_le_cancel_right_pos of_int_le_iff)
  then show ?thesis
    using assms(1) by (simp only: pk) (simp add: double_round_def e_def)
qed

lemma double_below_one:
  assumes "is_double x" and "0 \<le> x" and "x < 1"
  shows "x \<le> 1 - 1 / 2 ^ 53"
proof (cases "x = 0")
  case True
  then show ?thesis by simp
next
  case False
  with assms(2) have pos: "0 < x" by simp
  from binade_bounds [OF pos]
  have b: "2 powi binade x \<le> x" "x < 2 powi (binade x + 1)" by simp_all
  have neg: "binade x < 0"
  proof (rule ccontr)
    assume "\<not> binade x < 0"
    then have "(1::real) \<le> 2 powi binade x" by simp
    with b(1) assms(3) show False by linarith
  qed
  show ?thesis
  proof (cases "binade x = - 1")
    case True
    define n where "n = round_half_even (x / 2 powi (- 53))"
    have "double_round x = of_int n * 2 powi (- 53)"
      using pos True by (simp add: double_round_def double_exponent_def n_def)
    with assms(1) have x: "x = of_int n / 2 ^ 53"
      by (simp add: is_double_def)
    with assms(3) have "(of_int n :: real) < of_int (2 ^ 53)"
      by simp
    then have "n < 2 ^ 53"
      by (simp only: of_int_less_iff)
    then have "n \<le> 2 ^ 53 - 1"
      by simp
    then have "(of_int n :: real) \<le> of_int (2 ^ 53 - 1)"
      by (simp only: of_int_le_iff)
    then show ?thesis
      by (simp add: x)
  next
    case False
    with neg have "binade x + 1 \<le> - 1" by simp
    then have "(2::real) powi (binade x + 1) \<le> 2 powi (- 1)"
      by (intro power_int_increasing) simp_all
    with b(2) show ?thesis by simp
  qed
qed

lemma js_times_random:
  assumes "is_double rnd" and "0 \<le> rnd" and "rnd < 1"
  shows "0 \<le> js_times rnd 9000 \<and> js_times rnd 9000 \<le> 9000 - 1 / 2 ^ 39"
proof -
  define x where "x = rnd * 9000"
  have r: "rnd \<le> 1 - 1 / 2 ^ 53"
    using assms by (rule double_below_one)
  have x0: "0 \<le> x" and x1: "x \<le> 9000 - 9000 / 2 ^ 53"
    using assms(2) r by (simp_all add: x_def)
  have lo: "0 \<le> double_round x"
    using x0 by (rule double_round_nonneg)
  have hi: "double_round x \<le> 9000 - 1 / 2 ^ 39"
  proof (cases "x < 8192")
    case True
    show ?thesis
    proof (cases "x = 0")
      case True
      then show ?thesis by (simp add: double_round_def)
    next
      case False
      with x0 have "0 < x" by simp
      moreover have "x < 2 powi 13" using True by simp
      ultimately have "double_round x \<le> 2 powi 13"
        by (rule double_round_le_pow) simp
      then show ?thesis by simp
    qed
  next
    case False
    define n where "n = round_half_even (x / 2 powi (- 39))"
    have "2 powi 13 \<le> \<bar>x\<bar>" "\<bar>x\<bar> < 2 powi (13 + 1)"
      using False x1 by simp_all
    then have "double_round x =
        of_int (round_half_even (x / 2 powi max (13 - 52) (- 1074))) * 2 powi max (13 - 52) (- 1074)"
      by (rule double_round_eq)
    then have d: "double_round x = of_int n / 2 ^ 39"
      by (simp add: n_def)
    have "of_int n \<le> x / 2 powi (- 39) + 1 / 2"
      unfolding n_def by (rule rhe_upper)
    also have "x / 2 powi (- 39) = x * 2 ^ 39"
      by simp
    finally have "(of_int n :: real) < of_int (9000 * 2 ^ 39)"
      using x1 by simp
    then have "n < 9000 * 2 ^ 39"
      by (simp only: of_int_less_iff)
    then have "n \<le> 9000 * 2 ^ 39 - 1"
      by simp
    then have "(of_int n :: real) \<le> of_int (9000 * 2 ^ 39 - 1)"
      by (simp only: of_int_le_iff)
    then show ?thesis
      by (simp add: d field_simps)
  qed
  from lo hi show ?thesis
    by (simp add: js_times_def x_def)
qed

lemma js_plus_1000:
  assumes "0 \<le> p" and "p \<le> 9000 - 1 / 2 ^ 39"
  shows "1000 \<le> js_plus 1000 p \<and> js_plus 1000 p < 10000"
proof -
  define s where "s = 1000 + p"
  have s: "1000 \<le> s" "s \<le> 10000 - 1 / 2 ^ 39"
    using assms by (simp_all add: s_def)
  consider "s < 1024" | "1024 \<le> s" "s < 2048" | "2048 \<le> s" "s < 4096"
    | "4096 \<le> s" "s < 8192" | "8192 \<le> s"
    by linarith
  then have "1000 \<le> double_round s \<and> double_round s < 10000"
  proof cases
    case 1
    have b: "2 powi 9 \<le> s" "s < 2 powi (9 + 1)" using s 1 by simp_all
    have "1000 \<le> double_round s"
      using b s(1) by (rule double_round_ge [where m = "1000 * 2 ^ 43"]) simp
    moreover have "double_round s \<le> 1024"
      using b by (rule double_round_le [where m = "1024 * 2 ^ 43"]) (use 1 in simp_all)
    ultimately show ?thesis by simp
  next
    case 2
    have b: "2 powi 10 \<le> s" "s < 2 powi (10 + 1)" using 2 by simp_all
    have "1000 \<le> double_round s"
      using b s(1) by (rule double_round_ge [where m = "1000 * 2 ^ 42"]) simp
    moreover have "double_round s \<le> 2048"
      using b by (rule double_round_le [where m = "2048 * 2 ^ 42"]) (use 2 in simp_all)
    ultimately show ?thesis by simp
  next
    case 3
    have b: "2 powi 11 \<le> s" "s < 2 powi (11 + 1)" using 3 by simp_all
    have "1000 \<le> double_round s"
      using b s(1) by (rule double_round_ge [where m = "1000 * 2 ^ 41"]) simp
    moreover have "double_round s \<le> 4096"
      using b by (rule double_round_le [where m = "4096 * 2 ^ 41"]) (use 3 in simp_all)
    ultimately show ?thesis by simp
  next
    case 4
    have b: "2 powi 12 \<le> s" "s < 2 powi (12 + 1)" using 4 by simp_all
    have "1000 \<le> double_round s"
      using b s(1) by (rule double_round_ge [where m = "1000 * 2 ^ 40"]) simp
    moreover have "double_round s \<le> 8192"
      using b by (rule double_round_le [where m = "8192 * 2 ^ 40"]) (use 4 in simp_all)
    ultimately show ?thesis by simp
  next
    case 5
    have b: "2 powi 13 \<le> s" "s < 2 powi (13 + 1)" using 5 s(2) by simp_all
    have "1000 \<le> double_round s"
      using b s(1) by (rule double_round_ge [where m = "1000 * 2 ^ 39"]) simp
    moreover have "double_round s \<le> 10000 - 1 / 2 ^ 39"
      using b s(2) by (rule double_round_le [where m = "10000 * 2 ^ 39 - 1"]) simp
    ultimately show ?thesis by simp
  qed
  then show ?thesis
    by (simp add: js_plus_def s_def)
qed

text \<open>Some values, computed.\<close>

lemma double_half: "is_double (1 / 2)"
  by (simp add: is_double_def double_round_eq [of "- 1"] round_half_even_def)

lemma code_half: "\<lfloor>js_plus 1000 (js_times (1 / 2) 9000)\<rfloor> = 5500"
  by (simp add: js_plus_def js_times_def double_round_eq [of 12] round_half_even_def)

lemma double_tie: "is_double (7 / 8 - 1 / 2 ^ 53)"
  by (simp add: is_double_def double_round_eq [of "- 1"] round_half_even_def)

lemma code_tie: "\<lfloor>js_plus 1000 (js_times (7 / 8 - 1 / 2 ^ 53) 9000)\<rfloor> = 8875"
proof -
  have a: "js_times (7 / 8 - 1 / 2 ^ 53) 9000 = 7875 - 1 / 2 ^ 40"
    by (simp add: js_times_def double_round_eq [of 12] round_half_even_def)
  have b: "js_plus 1000 (7875 - 1 / 2 ^ 40) = 8875"
    by (simp add: js_plus_def double_round_eq [of 13] round_half_even_def)
  show ?thesis
    unfolding a b by simp
qed






subsection \<open>Codes are four digits\<close>

lemma digit_char_cases:
  assumes "d < 10"
  shows "is_digit (digit_char d) \<and> digit_value (digit_char d) = d"
proof -
  from assms have "d \<in> {0, 1, 2, 3, 4, 5, 6, 7, 8, 9}" by auto
  then show ?thesis
    by (auto simp: digit_char_def is_digit_def digit_value_def)
qed

lemma digits_numeric: "list_all is_digit (digits n)"
proof (induction n rule: digits.induct)
  case (1 n)
  show ?case
  proof (cases "n < 10")
    case True
    then show ?thesis by (subst digits.simps) (simp add: digit_char_cases)
  next
    case False
    with 1 show ?thesis by (subst digits.simps) (simp add: digit_char_cases)
  qed
qed

lemma decimal_value_snoc: "decimal_value (s @ [c]) = 10 * decimal_value s + digit_value c"
  by (simp add: decimal_value_def)

lemma decimal_value_digits: "decimal_value (digits n) = n"
proof (induction n rule: digits.induct)
  case (1 n)
  show ?case
  proof (cases "n < 10")
    case True
    then show ?thesis by (subst digits.simps) (simp add: digit_char_cases decimal_value_def)
  next
    case False
    with 1 show ?thesis
      by (subst digits.simps) (simp add: digit_char_cases decimal_value_snoc)
  qed
qed

lemma digits_4:
  assumes "1000 \<le> n" "n \<le> 9999"
  shows "length (digits n) = 4"
proof -
  have a: "\<not> n < 10" "\<not> n div 10 < 10" "\<not> n div 10 div 10 < 10" "n div 10 div 10 div 10 < 10"
    using assms by auto
  show ?thesis
    by (subst digits.simps, simp only: a if_False, subst digits.simps, simp only: a if_False,
        subst digits.simps, simp only: a if_False, subst digits.simps, simp only: a if_True, simp)
qed

lemma random_code_range:
  assumes "is_double rnd" and "0 \<le> rnd" and "rnd < 1"
  shows "1000 \<le> \<lfloor>js_plus 1000 (js_times rnd 9000)\<rfloor>
       \<and> \<lfloor>js_plus 1000 (js_times rnd 9000)\<rfloor> \<le> 9999"
proof -
  have "0 \<le> js_times rnd 9000 \<and> js_times rnd 9000 \<le> 9000 - 1 / 2 ^ 39"
    using assms by (rule js_times_random)
  then have "1000 \<le> js_plus 1000 (js_times rnd 9000) \<and> js_plus 1000 (js_times rnd 9000) < 10000"
    by (intro js_plus_1000) simp_all
  then show ?thesis
    by (simp add: le_floor_iff floor_le_iff)
qed

lemma toString_code:
  assumes "1000 \<le> n" "n \<le> 9999"
  shows "length (toString n) = 4 \<and> list_all is_digit (toString n) \<and> int (decimal_value (toString n)) = n"
  using assms by (simp add: toString_def digits_4 digits_numeric decimal_value_digits)

lemma generateOTP_store:
  "map_of (snd (generateOTP store orderId phoneNumber rnd now1 now2)) orderId =
     Some \<lparr>otp = fst (generateOTP store orderId phoneNumber rnd now1 now2), phone = phoneNumber,
           attempts = 0, generatedAt = now1, expiresAt = now2 + otpExpiry, verified = False,
           verifiedAt = None\<rparr>"
  by (simp add: generateOTP_def Let_def AList.update_conv')

lemma generateOTP_wf: "wf_store store \<Longrightarrow> wf_store (snd (generateOTP store orderId phoneNumber rnd now1 now2))"
  by (simp add: generateOTP_def Let_def wf_store_def AList.distinct_update)

lemma generateOTP_others:
  "AList.delete orderId (snd (generateOTP store orderId phoneNumber rnd now1 now2)) = AList.delete orderId store"
  by (simp add: generateOTP_def Let_def AList.delete_update_same)

subsection \<open>The branches of \<open>verifyOTP\<close>\<close>

lemma verifyOTP_match:
  assumes "map_of store orderId = Some otpData" and "now \<le> expiresAt otpData"
    and "attempts otpData < maxAttempts"
  shows "verifyOTP store orderId (otp otpData) now =
    (\<lparr>success = True, message = ''OTP verified successfully'',
      remainingAttempts = maxAttempts - (attempts otpData + 1)\<rparr>,
     AList.update orderId
       (otpData\<lparr>attempts := attempts otpData + 1, verified := True, verifiedAt := Some now\<rparr>) store)"
  using assms by (simp add: verifyOTP_def Let_def)

lemma verifyOTP_mismatch:
  assumes "map_of store orderId = Some otpData" and "now \<le> expiresAt otpData"
    and "attempts otpData < maxAttempts" and "inputOTP \<noteq> otp otpData"
  shows "snd (verifyOTP store orderId inputOTP now) =
           AList.update orderId (otpData\<lparr>attempts := attempts otpData + 1\<rparr>) store
       \<and> \<not> success (fst (verifyOTP store orderId inputOTP now))
       \<and> remainingAttempts (fst (verifyOTP store orderId inputOTP now)) = maxAttempts - (attempts otpData + 1)"
  using assms by (auto simp add: verifyOTP_def Let_def)

lemma verifyOTP_expired:
  assumes "map_of store orderId = Some otpData" and "now > expiresAt otpData"
  shows "verifyOTP store orderId inputOTP now =
    (\<lparr>success = False, message = ''OTP has expired'', remainingAttempts = 0\<rparr>,
     AList.delete orderId store)"
  using assms by (simp add: verifyOTP_def)

lemma verifyOTP_exhausted:
  assumes "map_of store orderId = Some otpData" and "now \<le> expiresAt otpData"
    and "maxAttempts \<le> attempts otpData"
  shows "verifyOTP store orderId inputOTP now =
    (\<lparr>success = False, message = ''Maximum OTP attempts exceeded'', remainingAttempts = 0\<rparr>, store)"
  using assms by (simp add: verifyOTP_def)

lemma verifyOTP_missing:
  assumes "map_of store orderId = None"
  shows "verifyOTP store orderId inputOTP now =
    (\<lparr>success = False, message = ''OTP not found or expired'', remainingAttempts = 0\<rparr>, store)"
  using assms by (simp add: verifyOTP_def)

lemma verifyOTP_match_at:
  assumes "map_of store orderId = Some otpData" and "now \<le> expiresAt otpData"
    and "attempts otpData < maxAttempts"
  shows "fst (verifyOTP store orderId (otp otpData) now) =
      \<lparr>success = True, message = ''OTP verified successfully'',
        remainingAttempts = maxAttempts - (attempts otpData + 1)\<rparr>
    \<and> map_of (snd (verifyOTP store orderId (otp otpData) now)) orderId =
      Some (otpData\<lparr>attempts := attempts otpData + 1, verified := True, verifiedAt := Some now\<rparr>)"
  using verifyOTP_match [OF assms] by (simp add: AList.update_conv')

lemma verifyOTP_mismatch_at:
  assumes "map_of store orderId = Some otpData" and "now \<le> expiresAt otpData"
    and "attempts otpData < maxAttempts" and "inputOTP \<noteq> otp otpData"
  shows "\<not> success (fst (verifyOTP store orderId inputOTP now))
    \<and> remainingAttempts (fst (verifyOTP store orderId inputOTP now)) = maxAttempts - (attempts otpData + 1)
    \<and> map_of (snd (verifyOTP store orderId inputOTP now)) orderId =
      Some (otpData\<lparr>attempts := attempts otpData + 1\<rparr>)"
  using verifyOTP_mismatch [OF assms] by (simp add: AList.update_conv')

lemma verifyOTP_ignores_verified:
  "fst (verifyOTP (AList.update orderId (otpData\<lparr>verified := True\<rparr>) store) orderId inputOTP now)
   = fst (verifyOTP (AList.update orderId (otpData\<lparr>verified := False\<rparr>) store) orderId inputOTP now)"
  by (simp add: verifyOTP_def Let_def AList.update_conv')

lemma verify_three_times:
  assumes m: "map_of store orderId = Some otpData" and a: "attempts otpData = 0"
    and t: "t1 \<le> expiresAt otpData" "t2 \<le> expiresAt otpData" "t3 \<le> expiresAt otpData"
      "t4 \<le> expiresAt otpData"
  shows "map success (fst (verify_seq store orderId
            [(otp otpData, t1), (otp otpData, t2), (otp otpData, t3), (otp otpData, t4)]))
          = [True, True, True, False]
       \<and> map remainingAttempts (fst (verify_seq store orderId
            [(otp otpData, t1), (otp otpData, t2), (otp otpData, t3), (otp otpData, t4)]))
          = [2, 1, 0, 0]"
proof -
  let ?c = "otp otpData"
  let ?d1 = "otpData\<lparr>attempts := 1, verified := True, verifiedAt := Some t1\<rparr>"
  let ?d2 = "otpData\<lparr>attempts := 2, verified := True, verifiedAt := Some t2\<rparr>"
  let ?d3 = "otpData\<lparr>attempts := 3, verified := True, verifiedAt := Some t3\<rparr>"
  let ?s1 = "snd (verifyOTP store orderId ?c t1)"
  let ?s2 = "snd (verifyOTP ?s1 orderId ?c t2)"
  let ?s3 = "snd (verifyOTP ?s2 orderId ?c t3)"
  have r1: "success (fst (verifyOTP store orderId ?c t1))"
      "remainingAttempts (fst (verifyOTP store orderId ?c t1)) = 2"
    and m1: "map_of ?s1 orderId = Some ?d1"
    using verifyOTP_match_at [OF m t(1)] a by (simp_all add: maxAttempts_def)
  have r2: "success (fst (verifyOTP ?s1 orderId ?c t2))"
      "remainingAttempts (fst (verifyOTP ?s1 orderId ?c t2)) = 1"
    and m2: "map_of ?s2 orderId = Some ?d2"
    using verifyOTP_match_at [OF m1, of t2] t(2) by (simp_all add: maxAttempts_def)
  have r3: "success (fst (verifyOTP ?s2 orderId ?c t3))"
      "remainingAttempts (fst (verifyOTP ?s2 orderId ?c t3)) = 0"
    and m3: "map_of ?s3 orderId = Some ?d3"
    using verifyOTP_match_at [OF m2, of t3] t(3) by (simp_all add: maxAttempts_def)
  have r4: "\<not> success (fst (verifyOTP ?s3 orderId ?c t4))"
      "remainingAttempts (fst (verifyOTP ?s3 orderId ?c t4)) = 0"
    using verifyOTP_exhausted [OF m3, of t4 ?c] t(4) by (simp_all add: maxAttempts_def)
  show ?thesis
    using r1 r2 r3 r4 by (simp add: Let_def)
qed

subsection \<open>The bound on \<open>attempts\<close> and the sweep\<close>

lemma set_update_subset: "set (AList.update k v al) \<subseteq> insert (k, v) (set al)"
  by (induction al) auto

lemma set_delete_subset: "set (AList.delete k al) \<subseteq> set al"
  by (auto simp add: AList.delete_eq)

lemma attempts_boundedI:
  assumes "\<And>k d. (k, d) \<in> set store \<Longrightarrow> 0 \<le> attempts d \<and> attempts d \<le> maxAttempts"
  shows "attempts_bounded store"
  using assms by (auto simp add: attempts_bounded_def list_all_iff)

lemma attempts_boundedD:
  assumes "attempts_bounded store" and "(k, d) \<in> set store"
  shows "0 \<le> attempts d \<and> attempts d \<le> maxAttempts"
  using assms by (auto simp add: attempts_bounded_def list_all_iff)

lemma attempts_bounded_update:
  assumes "attempts_bounded store" and "0 \<le> attempts d" and "attempts d \<le> maxAttempts"
  shows "attempts_bounded (AList.update k d store)"
proof (rule attempts_boundedI)
  fix k' d'
  assume "(k', d') \<in> set (AList.update k d store)"
  then have "(k', d') = (k, d) \<or> (k', d') \<in> set store"
    using set_update_subset [of k d store] by auto
  then show "0 \<le> attempts d' \<and> attempts d' \<le> maxAttempts"
    using assms attempts_boundedD [of store k' d'] by auto
qed

lemma attempts_bounded_subset:
  assumes "attempts_bounded store" and "set store' \<subseteq> set store"
  shows "attempts_bounded store'"
  using assms by (auto simp add: attempts_bounded_def list_all_iff)

lemma generateOTP_bounded:
  "attempts_bounded store \<Longrightarrow> attempts_bounded (snd (generateOTP store orderId phoneNumber rnd now1 now2))"
  by (simp add: generateOTP_def Let_def attempts_bounded_update maxAttempts_def)

lemma verifyOTP_bounded:
  assumes "attempts_bounded store"
  shows "attempts_bounded (snd (verifyOTP store orderId inputOTP now))"
proof (cases "map_of store orderId")
  case None
  with assms show ?thesis by (simp add: verifyOTP_def)
next
  case (Some d)
  then have "(orderId, d) \<in> set store" by (rule map_of_SomeD)
  with assms have d: "0 \<le> attempts d \<and> attempts d \<le> maxAttempts"
    by (rule attempts_boundedD)
  have del: "attempts_bounded (AList.delete orderId store)"
    using assms set_delete_subset by (rule attempts_bounded_subset)
  show ?thesis
    using Some assms d del
    by (simp add: verifyOTP_def Let_def attempts_bounded_update)
qed

lemma resendOTP_bounded:
  "attempts_bounded store \<Longrightarrow> attempts_bounded (snd (resendOTP store orderId rnd now1 now2))"
  by (simp add: resendOTP_def split_beta generateOTP_bounded split: option.splits)

lemma cleanup_loop_filter:
  "snd (cleanup_loop now entries (n, store)) =
     filter (\<lambda>(k, d). k \<notin> fst ` {e \<in> set entries. past_grace now e}) store"
proof (induction entries arbitrary: n store)
  case Nil
  show ?case by simp
next
  case (Cons e entries)
  obtain k d where e: "e = (k, d)" by (cases e)
  show ?case
  proof (cases "now > expiresAt d + 300000")
    case True
    then have "past_grace now e"
      by (simp add: e past_grace_def)
    then have "{x \<in> set (e # entries). past_grace now x}
        = insert e {x \<in> set entries. past_grace now x}"
      by auto
    then have "fst ` {x \<in> set (e # entries). past_grace now x}
        = insert k (fst ` {x \<in> set entries. past_grace now x})"
      by (simp add: e)
    with True show ?thesis
      by (auto simp add: e Cons.IH AList.delete_eq split_beta intro!: filter_cong)
  next
    case False
    then have "{x \<in> set (e # entries). past_grace now x} = {x \<in> set entries. past_grace now x}"
      by (auto simp add: e past_grace_def)
    with False show ?thesis
      by (simp add: e Cons.IH)
  qed
qed

lemma cleanup_loop_count:
  "fst (cleanup_loop now entries (n, store)) = n + length (filter (past_grace now) entries)"
  by (induction entries arbitrary: n store) (auto simp add: past_grace_def)

lemma cleanupExpiredOTPs_filter:
  assumes "wf_store store"
  shows "snd (cleanupExpiredOTPs store now) = filter (\<lambda>e. \<not> past_grace now e) store"
proof -
  have "(k \<notin> fst ` {e \<in> set store. past_grace now e}) = (\<not> past_grace now (k, d))"
    if "(k, d) \<in> set store" for k d
  proof
    assume "k \<notin> fst ` {e \<in> set store. past_grace now e}"
    with that show "\<not> past_grace now (k, d)" by force
  next
    assume n: "\<not> past_grace now (k, d)"
    show "k \<notin> fst ` {e \<in> set store. past_grace now e}"
    proof
      assume "k \<in> fst ` {e \<in> set store. past_grace now e}"
      then obtain d' where d': "(k, d') \<in> set store" "past_grace now (k, d')" by auto
      from assms d'(1) that have "d' = d"
        unfolding wf_store_def by (rule eq_key_imp_eq_value)
      with d'(2) n show False by simp
    qed
  qed
  then have "filter (\<lambda>(k, d). k \<notin> fst ` {e \<in> set store. past_grace now e}) store
      = filter (\<lambda>e. \<not> past_grace now e) store"
    by (intro filter_cong) auto
  then show ?thesis
    by (simp add: cleanupExpiredOTPs_def cleanup_loop_filter)
qed

lemma cleanupExpiredOTPs_subset: "set (snd (cleanupExpiredOTPs store now)) \<subseteq> set store"
  by (auto simp add: cleanupExpiredOTPs_def cleanup_loop_filter)

lemma cleanupExpiredOTPs_wf: "wf_store store \<Longrightarrow> wf_store (snd (cleanupExpiredOTPs store now))"
  by (simp add: cleanupExpiredOTPs_def cleanup_loop_filter wf_store_def distinct_map_filter)


lemma checkOTPStatus_store: "snd (checkOTPStatus store orderId now) = store"
  by (simp add: checkOTPStatus_def Let_def split: option.splits)

lemma step_bounded:
  assumes "attempts_bounded store"
  shows "attempts_bounded (step store call)"
proof -
  obtain op now where c: "call = (op, now)" by (cases call)
  show ?thesis
  proof (cases op)
    case (Generate k ph r n2)
    with assms c show ?thesis by (simp add: generateOTP_bounded)
  next
    case (Verify k code)
    with assms c show ?thesis by (simp add: verifyOTP_bounded)
  next
    case (Resend k r n2)
    with assms c show ?thesis by (simp add: resendOTP_bounded)
  next
    case (CheckStatus k)
    with assms c show ?thesis by (simp add: checkOTPStatus_store)
  next
    case Sweep
    with assms c show ?thesis
      by (simp add: attempts_bounded_subset [OF _ cleanupExpiredOTPs_subset])
  next
    case Statistics
    with assms c show ?thesis by simp
  qed
qed

lemma foldl_step_bounded:
  "attempts_bounded store \<Longrightarrow> attempts_bounded (foldl step store calls)"
  by (induction calls arbitrary: store) (simp_all add: step_bounded)

lemma run_bounded: "attempts_bounded (run calls)"
  unfolding run_def by (rule foldl_step_bounded) (simp add: attempts_bounded_def)

lemma wrong_code_progress:
  assumes "case map_of store orderId of None \<Rightarrow> True | Some d \<Rightarrow> otp d = code \<and> n \<le> attempts d"
    and "inputOTP \<noteq> code" and "n < maxAttempts"
  shows "\<not> success (fst (verifyOTP store orderId inputOTP now))
     \<and> (case map_of (snd (verifyOTP store orderId inputOTP now)) orderId of
          None \<Rightarrow> True | Some d \<Rightarrow> otp d = code \<and> n + 1 \<le> attempts d)"
  using assms
  by (auto simp add: verifyOTP_def Let_def AList.update_conv' AList.delete_conv'
      split: option.splits)

lemma exhausted_fails:
  assumes "case map_of store orderId of None \<Rightarrow> True | Some d \<Rightarrow> maxAttempts \<le> attempts d"
  shows "\<not> success (fst (verifyOTP store orderId inputOTP now))"
  using assms by (auto simp add: verifyOTP_def Let_def split: option.splits)

lemma exhausted_unchanged:
  assumes "map_of store orderId = Some otpData" and "maxAttempts \<le> attempts otpData"
  shows "\<not> success (fst (verifyOTP store orderId inputOTP now))
     \<and> (snd (verifyOTP store orderId inputOTP now) = store
         \<or> map_of (snd (verifyOTP store orderId inputOTP now)) orderId = None)"
  using assms by (simp add: verifyOTP_def AList.delete_conv')

lemma three_wrong_then_fail:
  assumes m: "map_of store orderId = Some otpData" and a: "0 \<le> attempts otpData"
    and w: "c1 \<noteq> otp otpData" "c2 \<noteq> otp otpData" "c3 \<noteq> otp otpData"
  shows "map success (fst (verify_seq store orderId [(c1, t1), (c2, t2), (c3, t3), (c4, t4)]))
         = [False, False, False, False]"
proof -
  let ?s1 = "snd (verifyOTP store orderId c1 t1)"
  let ?s2 = "snd (verifyOTP ?s1 orderId c2 t2)"
  let ?s3 = "snd (verifyOTP ?s2 orderId c3 t3)"
  have p0: "case map_of store orderId of None \<Rightarrow> True
      | Some d \<Rightarrow> otp d = otp otpData \<and> 0 \<le> attempts d"
    using m a by simp
  have p1: "\<not> success (fst (verifyOTP store orderId c1 t1))
      \<and> (case map_of ?s1 orderId of None \<Rightarrow> True
          | Some d \<Rightarrow> otp d = otp otpData \<and> 0 + 1 \<le> attempts d)"
    using p0 w(1) by (rule wrong_code_progress) (simp add: maxAttempts_def)
  then have p2: "\<not> success (fst (verifyOTP ?s1 orderId c2 t2))
      \<and> (case map_of ?s2 orderId of None \<Rightarrow> True
          | Some d \<Rightarrow> otp d = otp otpData \<and> (0 + 1) + 1 \<le> attempts d)"
    using w(2) by (intro wrong_code_progress) (simp_all add: maxAttempts_def)
  then have p3: "\<not> success (fst (verifyOTP ?s2 orderId c3 t3))
      \<and> (case map_of ?s3 orderId of None \<Rightarrow> True
          | Some d \<Rightarrow> otp d = otp otpData \<and> ((0 + 1) + 1) + 1 \<le> attempts d)"
    using w(3) by (intro wrong_code_progress) (simp_all add: maxAttempts_def)
  then have "case map_of ?s3 orderId of None \<Rightarrow> True | Some d \<Rightarrow> maxAttempts \<le> attempts d"
    by (simp add: maxAttempts_def split: option.splits)
  then have p4: "\<not> success (fst (verifyOTP ?s3 orderId c4 t4))"
    by (rule exhausted_fails)
  from p1 p2 p3 p4 show ?thesis by (simp add: Let_def)
qed

lemma three_wrong_then_exhausted:
  assumes m: "map_of store orderId = Some otpData" and a: "attempts otpData = 0"
    and w: "c1 \<noteq> otp otpData" "c2 \<noteq> otp otpData" "c3 \<noteq> otp otpData"
    and t: "t1 \<le> expiresAt otpData" "t2 \<le> expiresAt otpData" "t3 \<le> expiresAt otpData"
      "t4 \<le> expiresAt otpData"
  shows "last (fst (verify_seq store orderId [(c1, t1), (c2, t2), (c3, t3), (c4, t4)]))
           = \<lparr>success = False, message = ''Maximum OTP attempts exceeded'', remainingAttempts = 0\<rparr>
       \<and> map_of (snd (verify_seq store orderId [(c1, t1), (c2, t2), (c3, t3), (c4, t4)])) orderId
           = Some (otpData\<lparr>attempts := 3\<rparr>)"
proof -
  let ?s1 = "snd (verifyOTP store orderId c1 t1)"
  let ?s2 = "snd (verifyOTP ?s1 orderId c2 t2)"
  let ?s3 = "snd (verifyOTP ?s2 orderId c3 t3)"
  have m1: "map_of ?s1 orderId = Some (otpData\<lparr>attempts := 1\<rparr>)"
    using verifyOTP_mismatch_at [OF m t(1) _ w(1)] a by (simp add: maxAttempts_def)
  have m2: "map_of ?s2 orderId = Some (otpData\<lparr>attempts := 2\<rparr>)"
    using verifyOTP_mismatch_at [OF m1, of t2 c2] t(2) w(2) by (simp add: maxAttempts_def)
  have m3: "map_of ?s3 orderId = Some (otpData\<lparr>attempts := 3\<rparr>)"
    using verifyOTP_mismatch_at [OF m2, of t3 c3] t(3) w(3) by (simp add: maxAttempts_def)
  have "verifyOTP ?s3 orderId c4 t4 =
      (\<lparr>success = False, message = ''Maximum OTP attempts exceeded'', remainingAttempts = 0\<rparr>, ?s3)"
    using m3 by (rule verifyOTP_exhausted) (simp_all add: t maxAttempts_def)
  with m3 show ?thesis by (simp add: Let_def)
qed

lemma verifyOTP_wf: "wf_store store \<Longrightarrow> wf_store (snd (verifyOTP store orderId inputOTP now))"
  by (simp add: verifyOTP_def Let_def wf_store_def AList.distinct_update AList.distinct_delete
      split: option.splits)

lemma resendOTP_wf: "wf_store store \<Longrightarrow> wf_store (snd (resendOTP store orderId rnd now1 now2))"
  by (simp add: resendOTP_def split_beta generateOTP_wf split: option.splits)

lemma step_wf:
  assumes "wf_store store"
  shows "wf_store (step store call)"
proof -
  obtain op now where c: "call = (op, now)" by (cases call)
  from assms show ?thesis
    by (cases op)
      (simp_all add: c generateOTP_wf verifyOTP_wf resendOTP_wf checkOTPStatus_store
        cleanupExpiredOTPs_wf)
qed

lemma foldl_step_wf: "wf_store store \<Longrightarrow> wf_store (foldl step store calls)"
  by (induction calls arbitrary: store) (simp_all add: step_wf)

lemma run_wf: "wf_store (run calls)"
  unfolding run_def by (rule foldl_step_wf) (simp add: wf_store_def)

subsection \<open>Statistics\<close>





text \<open>
  The rounding of the quotient shows in the text: 23 of 80 is 28.75 exactly, but the double
  \<open>(23 / 80) * 100\<close> lies just below it.
\<close>

lemma rate_23_of_80: "toFixed1 (js_times (js_divide 23 80) 100) = ''28.7''"
proof -
  have q: "js_divide 23 80 = 5179139571476070 / 18014398509481984"
    by (simp add: js_divide_def double_round_eq [of "- 2"] round_half_even_def)
  have p: "js_times (5179139571476070 / 18014398509481984) 100 = 8092405580431359 / 281474976710656"
    by (simp add: js_times_def double_round_eq [of 4] round_half_even_def)
  show ?thesis
    unfolding q p by (simp add: toFixed1_def toString_def digits.simps digit_char_def)
qed


lemma verified_then_expired_store:
  assumes "t1 \<le> t0 + otpExpiry" and "t2 \<le> t0 + otpExpiry + 5 * 60 * 1000"
  shows "verified_then_expired orderId phoneNumber rnd t0 t1 t2 =
    [(orderId, \<lparr>otp = toString \<lfloor>js_plus 1000 (js_times rnd 9000)\<rfloor>, phone = phoneNumber, attempts = 1,
            generatedAt = t0, expiresAt = t0 + otpExpiry, verified = True, verifiedAt = Some t1\<rparr>)]"
  using assms
  by (simp add: verified_then_expired_def run_def generateOTP_def verifyOTP_def Let_def
      maxAttempts_def cleanupExpiredOTPs_def)

subsection \<open>Claims\<close>

text \<open>
  C4, as stated, fails in one point: the claim gives the fresh record \<open>generatedAt = now\<close>
  and \<open>expiresAt = now + 5 min\<close> for one \<open>now\<close>, but \<open>generateOTP\<close> reads the clock
  once for each field. When the clock goes from 0 to 1 between the two readings the record has
  \<open>generatedAt = 0\<close> and \<open>expiresAt = 300001\<close>, which is not \<open>generatedAt\<close> plus five
  minutes.
\<close>

theorem generateOTP_clock_counterexample:
  "ticking_generate =
     [(1, \<lparr>otp = ''5500'', phone = ''9876543210'', attempts = 0, generatedAt = 0,
           expiresAt = 300001, verified = False, verifiedAt = None\<rparr>)]
   \<and> (300001::int) \<noteq> 0 + 5 * 60 * 1000"
  by (simp add: ticking_generate_def generateOTP_def Let_def code_half otpExpiry_def
      toString_def digits.simps digit_char_def)

text \<open>
  C4, amended. For every order and phone number, and every double \<open>0 \<le> rnd < 1\<close> that
  \<open>Math.random()\<close> returns, \<open>generateOTP\<close> returns a code of four decimal digits whose
  value lies between 1000 and 9999, computed in double precision, and the store then holds
  for that order one fresh record with this code, \<open>attempts = 0\<close>, \<open>verified = false\<close>,
  \<open>generatedAt\<close> the first reading of the clock and \<open>expiresAt\<close> the second reading plus
  five minutes, whatever record the order had before; the records of other orders are as they
  were. The function has no failing branch.
\<close>

theorem generateOTP_fresh_record:
  assumes "is_double rnd" and "0 \<le> rnd" and "rnd < 1" and "wf_store store"
  shows "length (fst (generateOTP store orderId phoneNumber rnd now1 now2)) = 4
       \<and> list_all is_digit (fst (generateOTP store orderId phoneNumber rnd now1 now2))
       \<and> 1000 \<le> decimal_value (fst (generateOTP store orderId phoneNumber rnd now1 now2))
       \<and> decimal_value (fst (generateOTP store orderId phoneNumber rnd now1 now2)) \<le> 9999
       \<and> map_of (snd (generateOTP store orderId phoneNumber rnd now1 now2)) orderId =
           Some \<lparr>otp = fst (generateOTP store orderId phoneNumber rnd now1 now2),
                 phone = phoneNumber, attempts = 0, generatedAt = now1,
                 expiresAt = now2 + 5 * 60 * 1000, verified = False, verifiedAt = None\<rparr>
       \<and> wf_store (snd (generateOTP store orderId phoneNumber rnd now1 now2))
       \<and> AList.delete orderId (snd (generateOTP store orderId phoneNumber rnd now1 now2))
           = AList.delete orderId store"
proof -
  let ?n = "\<lfloor>js_plus 1000 (js_times rnd 9000)\<rfloor>"
  have code: "fst (generateOTP store orderId phoneNumber rnd now1 now2) = toString ?n"
    by (simp add: generateOTP_def Let_def)
  have range: "1000 \<le> ?n \<and> ?n \<le> 9999"
    using assms(1,2,3) by (rule random_code_range)
  then have str: "length (toString ?n) = 4 \<and> list_all is_digit (toString ?n)
      \<and> int (decimal_value (toString ?n)) = ?n"
    by (simp add: toString_code)
  then have val: "1000 \<le> decimal_value (toString ?n) \<and> decimal_value (toString ?n) \<le> 9999"
    using range by linarith
  have rec: "map_of (snd (generateOTP store orderId phoneNumber rnd now1 now2)) orderId =
           Some \<lparr>otp = fst (generateOTP store orderId phoneNumber rnd now1 now2),
                 phone = phoneNumber, attempts = 0, generatedAt = now1,
                 expiresAt = now2 + 5 * 60 * 1000, verified = False, verifiedAt = None\<rparr>"
    using generateOTP_store [of store orderId phoneNumber rnd now1 now2]
    by (simp add: otpExpiry_def)
  show ?thesis
    using str val rec generateOTP_wf [OF assms(4)] generateOTP_others
    by (simp only: code) simp
qed

theorem generateOTP_fresh_record_witness:
  "is_double (1 / 2) \<and> (0::real) \<le> 1 / 2 \<and> (1 / 2 :: real) < 1
   \<and> wf_store [(1::nat, stale_record)]
   \<and> fst (generateOTP [(1::nat, stale_record)] 1 ''9876543210'' (1 / 2) 700000 700001) = ''5500''
   \<and> length ''5500'' = 4 \<and> decimal_value ''5500'' = 5500
   \<and> snd (generateOTP [(1::nat, stale_record)] 1 ''9876543210'' (1 / 2) 700000 700001) =
       [(1, \<lparr>otp = ''5500'', phone = ''9876543210'', attempts = 0, generatedAt = 700000,
             expiresAt = 1000001, verified = False, verifiedAt = None\<rparr>)]
   \<and> is_double (7 / 8 - 1 / 2 ^ 53) \<and> (0::real) \<le> 7 / 8 - 1 / 2 ^ 53
   \<and> (7 / 8 - 1 / 2 ^ 53 :: real) < 1
   \<and> fst (generateOTP [(1::nat, stale_record)] 1 ''9876543210'' (7 / 8 - 1 / 2 ^ 53) 0 0) = ''8875''
   \<and> decimal_value ''8875'' = 8875"
proof -
  have h: "is_double (1 / 2)" "(0::real) \<le> 1 / 2" "(1 / 2 :: real) < 1"
    "wf_store [(1::nat, stale_record)]"
    by (simp_all add: double_half wf_store_def)
  have h': "is_double (7 / 8 - 1 / 2 ^ 53)" "(0::real) \<le> 7 / 8 - 1 / 2 ^ 53"
    "(7 / 8 - 1 / 2 ^ 53 :: real) < 1"
    using double_tie by simp_all
  have c: "fst (generateOTP [(1::nat, stale_record)] 1 ''9876543210'' (1 / 2) 700000 700001) = ''5500''"
    by (simp add: generateOTP_def Let_def code_half toString_def digits.simps digit_char_def)
  have c': "fst (generateOTP [(1::nat, stale_record)] 1 ''9876543210'' (7 / 8 - 1 / 2 ^ 53) 0 0) = ''8875''"
    unfolding generateOTP_def Let_def fst_conv code_tie
    by (simp add: toString_def digits.simps digit_char_def)
  have s: "snd (generateOTP [(1::nat, stale_record)] 1 ''9876543210'' (1 / 2) 700000 700001) =
       [(1, \<lparr>otp = ''5500'', phone = ''9876543210'', attempts = 0, generatedAt = 700000,
             expiresAt = 1000001, verified = False, verifiedAt = None\<rparr>)]"
    by (simp add: generateOTP_def Let_def code_half toString_def digits.simps digit_char_def
        otpExpiry_def)
  from generateOTP_fresh_record [OF h, of 1 "''9876543210''" 700000 700001]
  have "decimal_value (fst (generateOTP [(1::nat, stale_record)] 1 ''9876543210'' (1 / 2) 700000 700001))
      \<le> 9999"
    by blast
  moreover from generateOTP_fresh_record [OF h' h(4), of 1 "''9876543210''" 0 0]
  have "length (fst (generateOTP [(1::nat, stale_record)] 1 ''9876543210'' (7 / 8 - 1 / 2 ^ 53) 0 0)) = 4"
    by blast
  moreover have "decimal_value ''5500'' = 5500" "decimal_value ''8875'' = 8875"
    by (simp_all add: decimal_value_def digit_value_def)
  ultimately show ?thesis using h h' c c' s by simp
qed

text \<open>
  C1, as stated, fails: the claim gives \<open>remainingAttempts = maxAttempts = 3\<close> for a
  successful verification, but the code returns \<open>maxAttempts - attempts\<close> after the
  increment. Verifying the code that \<open>generateOTP\<close> has just returned succeeds with
  \<open>remainingAttempts = 2\<close>.
\<close>

theorem verifyOTP_first_attempt_counterexample:
  "success (first_verify [] (1 / 2) 0) \<and> remainingAttempts (first_verify [] (1 / 2) 0) = 2
   \<and> remainingAttempts (first_verify [] (1 / 2) 0) \<noteq> maxAttempts"
  by (simp add: first_verify_def generateOTP_def verifyOTP_def Let_def otpExpiry_def maxAttempts_def)

text \<open>
  C1, amended. For every order with a record that has not expired (\<open>now \<le> expiresAt\<close>)
  and whose attempts are below the maximum, \<open>verifyOTP\<close> with the stored code returns
  \<open>success = true\<close>, sets \<open>verified = true\<close> and \<open>verifiedAt = now\<close>, and returns
  \<open>remainingAttempts = maxAttempts - (attempts + 1)\<close>, counting the successful attempt; in
  particular, verifying with the returned code after \<open>generateOTP\<close>, at any time up to the
  expiry of the new record, succeeds with \<open>remainingAttempts = 2\<close>.
\<close>

theorem verifyOTP_correct_code:
  "(map_of store orderId = Some otpData \<and> now \<le> expiresAt otpData \<and> attempts otpData < maxAttempts
     \<longrightarrow> success (fst (verifyOTP store orderId (otp otpData) now))
       \<and> remainingAttempts (fst (verifyOTP store orderId (otp otpData) now))
           = maxAttempts - (attempts otpData + 1)
       \<and> map_of (snd (verifyOTP store orderId (otp otpData) now)) orderId
           = Some (otpData\<lparr>attempts := attempts otpData + 1, verified := True,
                            verifiedAt := Some now\<rparr>))
   \<and> (now \<le> now2 + otpExpiry
     \<longrightarrow> success (fst (verifyOTP (snd (generateOTP store orderId phoneNumber rnd now1 now2)) orderId
                     (fst (generateOTP store orderId phoneNumber rnd now1 now2)) now))
       \<and> remainingAttempts (fst (verifyOTP (snd (generateOTP store orderId phoneNumber rnd now1 now2))
                     orderId (fst (generateOTP store orderId phoneNumber rnd now1 now2)) now)) = 2)"
proof -
  let ?g = "generateOTP store orderId phoneNumber rnd now1 now2"
  let ?d = "\<lparr>otp = fst ?g, phone = phoneNumber, attempts = 0, generatedAt = now1,
             expiresAt = now2 + otpExpiry, verified = False, verifiedAt = None\<rparr>"
  have after: "success (fst (verifyOTP (snd ?g) orderId (fst ?g) now))
      \<and> remainingAttempts (fst (verifyOTP (snd ?g) orderId (fst ?g) now)) = 2"
    if live: "now \<le> now2 + otpExpiry"
  proof -
    have "map_of (snd ?g) orderId = Some ?d"
      by (rule generateOTP_store)
    moreover have "now \<le> expiresAt ?d" "attempts ?d < maxAttempts"
      using live by (simp_all add: maxAttempts_def)
    ultimately have "verifyOTP (snd ?g) orderId (otp ?d) now =
      (\<lparr>success = True, message = ''OTP verified successfully'',
        remainingAttempts = maxAttempts - (attempts ?d + 1)\<rparr>,
       AList.update orderId
         (?d\<lparr>attempts := attempts ?d + 1, verified := True, verifiedAt := Some now\<rparr>) (snd ?g))"
      by (rule verifyOTP_match)
    then show ?thesis
      by (simp add: maxAttempts_def)
  qed
  then show ?thesis
    by (simp add: verifyOTP_match AList.update_conv')
qed

theorem verifyOTP_correct_code_witness:
  "map_of [(7::nat, pending_record)] 7 = Some pending_record \<and> 1000 \<le> expiresAt pending_record
   \<and> attempts pending_record < maxAttempts
   \<and> success (fst (verifyOTP [(7::nat, pending_record)] 7 ''4821'' 1000))
   \<and> remainingAttempts (fst (verifyOTP [(7::nat, pending_record)] 7 ''4821'' 1000)) = 1
   \<and> map_of (snd (verifyOTP [(7::nat, pending_record)] 7 ''4821'' 1000)) 7
       = Some (pending_record\<lparr>attempts := 2, verified := True, verifiedAt := Some 1000\<rparr>)
   \<and> (1000::int) \<le> 1 + otpExpiry
   \<and> success (fst (verifyOTP (snd (generateOTP [(7::nat, pending_record)] 7 ''9876543210'' (1 / 2) 0 1))
        7 (fst (generateOTP [(7::nat, pending_record)] 7 ''9876543210'' (1 / 2) 0 1)) 1000))
   \<and> remainingAttempts
        (fst (verifyOTP (snd (generateOTP [(7::nat, pending_record)] 7 ''9876543210'' (1 / 2) 0 1))
        7 (fst (generateOTP [(7::nat, pending_record)] 7 ''9876543210'' (1 / 2) 0 1)) 1000)) = 2"
proof -
  have h: "map_of [(7::nat, pending_record)] 7 = Some pending_record \<and> 1000 \<le> expiresAt pending_record
      \<and> attempts pending_record < maxAttempts"
    by (simp add: pending_record_def maxAttempts_def)
  have l: "(1000::int) \<le> 1 + otpExpiry"
    by (simp add: otpExpiry_def)
  have o: "otp pending_record = ''4821''" "attempts pending_record = 1"
    by (simp_all add: pending_record_def)
  from verifyOTP_correct_code [of "[(7::nat, pending_record)]" 7 pending_record 1000 1
      "''9876543210''" "1 / 2" 0] h l
  show ?thesis by (simp add: o maxAttempts_def)
qed

text \<open>
  C3. For every order whose record exists with \<open>expiresAt\<close> in the past, \<open>verifyOTP\<close>
  with any input code deletes the record and returns \<open>success = false\<close>,
  \<open>remainingAttempts = 0\<close> and the message \<open>OTP has expired\<close>; \<open>checkOTPStatus\<close>
  for that order then reports \<open>exists = false\<close>, at any later time. Nothing is assumed about
  \<open>attempts\<close>: the expiry branch comes before the check of the attempts.
\<close>

theorem verifyOTP_expired_record:
  assumes "map_of store orderId = Some otpData" and "now > expiresAt otpData"
  shows "fst (verifyOTP store orderId inputOTP now)
           = \<lparr>success = False, message = ''OTP has expired'', remainingAttempts = 0\<rparr>
       \<and> snd (verifyOTP store orderId inputOTP now) = AList.delete orderId store
       \<and> map_of (snd (verifyOTP store orderId inputOTP now)) orderId = None
       \<and> \<not> status_exists (fst (checkOTPStatus (snd (verifyOTP store orderId inputOTP now)) orderId later))"
proof -
  have v: "verifyOTP store orderId inputOTP now =
    (\<lparr>success = False, message = ''OTP has expired'', remainingAttempts = 0\<rparr>,
     AList.delete orderId store)"
    using assms by (rule verifyOTP_expired)
  have gone: "map_of (AList.delete orderId store) orderId = None"
    by (simp add: AList.delete_conv')
  then have "\<not> status_exists (fst (checkOTPStatus (AList.delete orderId store) orderId later))"
    by (simp add: checkOTPStatus_def)
  with v gone show ?thesis by simp
qed

theorem verifyOTP_expired_record_witness:
  "map_of [(1::nat, stale_record)] 1 = Some stale_record \<and> 300001 > expiresAt stale_record
   \<and> attempts stale_record \<ge> maxAttempts
   \<and> fst (verifyOTP [(1::nat, stale_record)] 1 ''1234'' 300001)
      = \<lparr>success = False, message = ''OTP has expired'', remainingAttempts = 0\<rparr>
   \<and> snd (verifyOTP [(1::nat, stale_record)] 1 ''1234'' 300001) = []
   \<and> \<not> status_exists (fst (checkOTPStatus (snd (verifyOTP [(1::nat, stale_record)] 1 ''1234'' 300001)) 1 300002))"
proof -
  have h: "map_of [(1::nat, stale_record)] 1 = Some stale_record" "300001 > expiresAt stale_record"
    by (simp_all add: stale_record_def)
  have a: "attempts stale_record \<ge> maxAttempts"
    by (simp add: stale_record_def maxAttempts_def)
  have d: "AList.delete 1 [(1::nat, stale_record)] = []"
    by simp
  note t = verifyOTP_expired_record [OF h, of "''1234''" 300002, unfolded d]
  from t h a show ?thesis by blast
qed

text \<open>
  C8. \<open>checkOTPStatus\<close> leaves the store as it was, for every order, also when the record
  asked for is past its expiry: it then reports \<open>exists = true\<close> and \<open>expired = true\<close>
  and the record stays. With no record it reports \<open>exists = false\<close>, \<open>expired = true\<close>
  and \<open>attempts = 0\<close>.
\<close>

theorem checkOTPStatus_pure:
  "snd (checkOTPStatus store orderId now) = store
   \<and> (map_of store orderId = None \<longrightarrow>
        fst (checkOTPStatus store orderId now)
          = \<lparr>status_exists = False, status_verified = False, status_expired = True,
             status_attempts = 0, status_remainingAttempts = 0, status_timeRemaining = 0\<rparr>)
   \<and> (map_of store orderId = Some otpData \<longrightarrow>
        status_exists (fst (checkOTPStatus store orderId now))
        \<and> status_expired (fst (checkOTPStatus store orderId now)) = (expiresAt otpData \<le> now))
   \<and> (map_of store orderId = Some otpData \<and> now > expiresAt otpData \<longrightarrow>
        status_exists (fst (checkOTPStatus store orderId now))
        \<and> status_expired (fst (checkOTPStatus store orderId now))
        \<and> map_of (snd (checkOTPStatus store orderId now)) orderId = Some otpData)"
  by (auto simp add: checkOTPStatus_def Let_def split: option.splits)

theorem checkOTPStatus_pure_witness:
  "map_of [(1::nat, stale_record)] 1 = Some stale_record \<and> 300001 > expiresAt stale_record
   \<and> checkOTPStatus [(1::nat, stale_record)] 1 300001
      = (\<lparr>status_exists = True, status_verified = True, status_expired = True,
          status_attempts = 3, status_remainingAttempts = 0, status_timeRemaining = 0\<rparr>,
         [(1, stale_record)])
   \<and> map_of [(1::nat, stale_record)] 2 = None
   \<and> checkOTPStatus [(1::nat, stale_record)] 2 300001
      = (\<lparr>status_exists = False, status_verified = False, status_expired = True,
          status_attempts = 0, status_remainingAttempts = 0, status_timeRemaining = 0\<rparr>,
         [(1, stale_record)])"
proof -
  have h: "map_of [(1::nat, stale_record)] 1 = Some stale_record \<and> 300001 > expiresAt stale_record"
    by (simp add: stale_record_def)
  have n: "map_of [(1::nat, stale_record)] 2 = None"
    by simp
  have f: "fst (checkOTPStatus [(1::nat, stale_record)] 1 300001)
      = \<lparr>status_exists = True, status_verified = True, status_expired = True,
          status_attempts = 3, status_remainingAttempts = 0, status_timeRemaining = 0\<rparr>"
    by (simp add: checkOTPStatus_def Let_def stale_record_def maxAttempts_def)
  from checkOTPStatus_pure [of "[(1::nat, stale_record)]" 1 300001 stale_record]
    checkOTPStatus_pure [of "[(1::nat, stale_record)]" 2 300001 stale_record] h n f
  show ?thesis by (simp add: prod_eq_iff)
qed

text \<open>
  C5. \<open>resendOTP\<close> returns \<open>success = false\<close> exactly when the order has no record, and
  then leaves the store alone. When a record exists, whatever its expiry and attempts, the
  call is \<open>generateOTP\<close> with the stored phone number: the order gets a fresh record with
  \<open>attempts = 0\<close>, \<open>verified = false\<close> and a new expiry, and the new code is returned.
  The random number and the two clock readings are those of \<open>generateOTP\<close>.
\<close>

theorem resendOTP_regenerates:
  "success (fst (resendOTP store orderId rnd now1 now2)) = (map_of store orderId \<noteq> None)
   \<and> (map_of store orderId = None \<longrightarrow>
        resend_otp (fst (resendOTP store orderId rnd now1 now2)) = None
        \<and> snd (resendOTP store orderId rnd now1 now2) = store)
   \<and> (map_of store orderId = Some otpData \<longrightarrow>
        resend_otp (fst (resendOTP store orderId rnd now1 now2))
          = Some (fst (generateOTP store orderId (phone otpData) rnd now1 now2))
        \<and> snd (resendOTP store orderId rnd now1 now2)
          = snd (generateOTP store orderId (phone otpData) rnd now1 now2)
        \<and> map_of (snd (resendOTP store orderId rnd now1 now2)) orderId
          = Some \<lparr>otp = fst (generateOTP store orderId (phone otpData) rnd now1 now2),
                  phone = phone otpData, attempts = 0, generatedAt = now1,
                  expiresAt = now2 + otpExpiry, verified = False, verifiedAt = None\<rparr>)"
proof (cases "map_of store orderId")
  case None
  then show ?thesis by (simp add: resendOTP_def)
next
  case (Some d)
  then have "resendOTP store orderId rnd now1 now2 =
      (\<lparr>success = True, message = ''New OTP sent successfully'',
        resend_otp = Some (fst (generateOTP store orderId (phone d) rnd now1 now2))\<rparr>,
       snd (generateOTP store orderId (phone d) rnd now1 now2))"
    by (simp add: resendOTP_def split_beta)
  with Some show ?thesis by (simp add: generateOTP_store)
qed

theorem resendOTP_regenerates_witness:
  "map_of [(1::nat, stale_record)] 1 = Some stale_record
   \<and> expiresAt stale_record < 700000 \<and> maxAttempts \<le> attempts stale_record
   \<and> resendOTP [(1::nat, stale_record)] 1 (1 / 2) 700000 700001
      = (\<lparr>success = True, message = ''New OTP sent successfully'', resend_otp = Some ''5500''\<rparr>,
         [(1, \<lparr>otp = ''5500'', phone = ''9876543210'', attempts = 0, generatedAt = 700000,
               expiresAt = 1000001, verified = False, verifiedAt = None\<rparr>)])
   \<and> map_of [(1::nat, stale_record)] 2 = None
   \<and> \<not> success (fst (resendOTP [(1::nat, stale_record)] 2 (1 / 2) 700000 700001))
   \<and> snd (resendOTP [(1::nat, stale_record)] 2 (1 / 2) 700000 700001) = [(1, stale_record)]"
proof -
  have h: "map_of [(1::nat, stale_record)] 1 = Some stale_record"
    "expiresAt stale_record < 700000" "maxAttempts \<le> attempts stale_record"
    by (simp_all add: stale_record_def maxAttempts_def)
  have n: "map_of [(1::nat, stale_record)] 2 = None"
    by simp
  have g: "generateOTP [(1::nat, stale_record)] 1 (phone stale_record) (1 / 2) 700000 700001
      = (''5500'', [(1, \<lparr>otp = ''5500'', phone = ''9876543210'', attempts = 0, generatedAt = 700000,
               expiresAt = 1000001, verified = False, verifiedAt = None\<rparr>)])"
    by (simp add: generateOTP_def Let_def code_half toString_def digits.simps digit_char_def
        otpExpiry_def stale_record_def)
  have m: "message (fst (resendOTP [(1::nat, stale_record)] 1 (1 / 2) 700000 700001)) = ''New OTP sent successfully''"
    by (simp add: resendOTP_def h(1) split_beta)
  from resendOTP_regenerates [of "[(1::nat, stale_record)]" 1 "1 / 2" 700000 700001 stale_record]
    resendOTP_regenerates [of "[(1::nat, stale_record)]" 2 "1 / 2" 700000 700001 stale_record] h n g m
  show ?thesis
    apply (simp only: prod_eq_iff fst_conv snd_conv)
    apply (simp add: resend_result.equality)
    done
qed

text \<open>
  C9. \<open>verifyOTP\<close> never reads the \<open>verified\<close> flag: its result is the same whether the
  flag of the record is set or not. So for a record that is already verified, not expired and
  below the maximum of attempts, the matching code succeeds again and \<open>attempts\<close> goes up by
  one; a record with no attempt used can be verified three times in a row (leaving 2, 1 and 0
  attempts), and the fourth call fails.
\<close>

theorem verifyOTP_ignores_verified_flag:
  "fst (verifyOTP (AList.update orderId (otpData\<lparr>verified := True\<rparr>) store) orderId inputOTP now)
     = fst (verifyOTP (AList.update orderId (otpData\<lparr>verified := False\<rparr>) store) orderId inputOTP now)
   \<and> (map_of store orderId = Some otpData \<and> verified otpData \<and> now \<le> expiresAt otpData
        \<and> attempts otpData < maxAttempts \<longrightarrow>
        success (fst (verifyOTP store orderId (otp otpData) now))
        \<and> map_of (snd (verifyOTP store orderId (otp otpData) now)) orderId
            = Some (otpData\<lparr>attempts := attempts otpData + 1, verified := True,
                             verifiedAt := Some now\<rparr>))
   \<and> (map_of store orderId = Some otpData \<and> attempts otpData = 0
        \<and> t1 \<le> expiresAt otpData \<and> t2 \<le> expiresAt otpData \<and> t3 \<le> expiresAt otpData
        \<and> t4 \<le> expiresAt otpData \<longrightarrow>
        map success (fst (verify_seq store orderId
            [(otp otpData, t1), (otp otpData, t2), (otp otpData, t3), (otp otpData, t4)]))
          = [True, True, True, False]
        \<and> map remainingAttempts (fst (verify_seq store orderId
            [(otp otpData, t1), (otp otpData, t2), (otp otpData, t3), (otp otpData, t4)]))
          = [2, 1, 0, 0])"
  using verifyOTP_ignores_verified [of orderId otpData store inputOTP now]
    verifyOTP_match_at [of store orderId otpData now]
    verify_three_times [of store orderId otpData t1 t2 t3 t4]
  by simp

theorem verifyOTP_ignores_verified_flag_witness:
  "map_of [(7::nat, verified_record)] 7 = Some verified_record \<and> verified verified_record
   \<and> 2000 \<le> expiresAt verified_record \<and> attempts verified_record < maxAttempts
   \<and> success (fst (verifyOTP [(7::nat, verified_record)] 7 ''4821'' 2000))
   \<and> map_of (snd (verifyOTP [(7::nat, verified_record)] 7 ''4821'' 2000)) 7
       = Some (verified_record\<lparr>attempts := 2, verified := True, verifiedAt := Some 2000\<rparr>)
   \<and> map_of [(7::nat, fresh_record)] 7 = Some fresh_record \<and> attempts fresh_record = 0
   \<and> 4 \<le> expiresAt fresh_record
   \<and> map success (fst (verify_seq [(7::nat, fresh_record)] 7
          [(''5500'', 1), (''5500'', 2), (''5500'', 3), (''5500'', 4)]))
       = [True, True, True, False]
   \<and> map remainingAttempts (fst (verify_seq [(7::nat, fresh_record)] 7
          [(''5500'', 1), (''5500'', 2), (''5500'', 3), (''5500'', 4)]))
       = [2, 1, 0, 0]"
proof -
  have h: "map_of [(7::nat, verified_record)] 7 = Some verified_record \<and> verified verified_record
     \<and> 2000 \<le> expiresAt verified_record \<and> attempts verified_record < maxAttempts"
    by (simp add: verified_record_def maxAttempts_def)
  have o: "otp verified_record = ''4821''" "attempts verified_record = 1"
    by (simp_all add: verified_record_def)
  have h': "map_of [(7::nat, fresh_record)] 7 = Some fresh_record \<and> attempts fresh_record = 0
     \<and> 1 \<le> expiresAt fresh_record \<and> 2 \<le> expiresAt fresh_record
     \<and> 3 \<le> expiresAt fresh_record \<and> 4 \<le> expiresAt fresh_record"
    by (simp add: fresh_record_def)
  have o': "otp fresh_record = ''5500''"
    by (simp add: fresh_record_def)
  from verifyOTP_ignores_verified_flag
      [of 7 verified_record "[(7::nat, verified_record)]" "''4821''" 2000]
    verifyOTP_ignores_verified_flag
      [of 7 fresh_record "[(7::nat, fresh_record)]" "''5500''" 1 1 2 3 4] h h'
  show ?thesis by (simp add: o o')
qed

text \<open>
  C2. After any sequence of \<open>generateOTP\<close>, \<open>verifyOTP\<close>, \<open>resendOTP\<close>,
  \<open>checkOTPStatus\<close>, sweep and statistics calls from the empty store, every record has
  \<open>0 \<le> attempts \<le> 3\<close>, and each call keeps that bound. Once \<open>attempts\<close> of a record
  has reached 3, \<open>verifyOTP\<close> fails whatever code is given and leaves the store as it was
  (or, past the expiry, deletes the record): \<open>attempts\<close> does not move. So after three
  \<open>verifyOTP\<close> calls with wrong codes, a fourth call with the stored code fails too; when
  the record starts unused and has not expired, the fourth result is
  \<open>Maximum OTP attempts exceeded\<close> and \<open>attempts\<close> is 3.
\<close>

theorem attempts_never_exceed_max:
  "attempts_bounded (run calls)
   \<and> (attempts_bounded store \<longrightarrow> attempts_bounded (step store call))
   \<and> (map_of store orderId = Some otpData \<and> maxAttempts \<le> attempts otpData \<longrightarrow>
        \<not> success (fst (verifyOTP store orderId inputOTP now))
        \<and> (snd (verifyOTP store orderId inputOTP now) = store
            \<or> map_of (snd (verifyOTP store orderId inputOTP now)) orderId = None))
   \<and> (map_of store orderId = Some otpData \<and> 0 \<le> attempts otpData
        \<and> c1 \<noteq> otp otpData \<and> c2 \<noteq> otp otpData \<and> c3 \<noteq> otp otpData \<longrightarrow>
        map success (fst (verify_seq store orderId
            [(c1, t1), (c2, t2), (c3, t3), (otp otpData, t4)]))
          = [False, False, False, False])
   \<and> (map_of store orderId = Some otpData \<and> attempts otpData = 0
        \<and> c1 \<noteq> otp otpData \<and> c2 \<noteq> otp otpData \<and> c3 \<noteq> otp otpData
        \<and> t1 \<le> expiresAt otpData \<and> t2 \<le> expiresAt otpData \<and> t3 \<le> expiresAt otpData
        \<and> t4 \<le> expiresAt otpData \<longrightarrow>
        last (fst (verify_seq store orderId [(c1, t1), (c2, t2), (c3, t3), (otp otpData, t4)]))
          = \<lparr>success = False, message = ''Maximum OTP attempts exceeded'', remainingAttempts = 0\<rparr>
        \<and> map_of (snd (verify_seq store orderId
              [(c1, t1), (c2, t2), (c3, t3), (otp otpData, t4)])) orderId
          = Some (otpData\<lparr>attempts := 3\<rparr>))"
proof (intro conjI impI)
  show "attempts_bounded (run calls)"
    by (rule run_bounded)
next
  assume "attempts_bounded store"
  then show "attempts_bounded (step store call)"
    by (rule step_bounded)
next
  assume "map_of store orderId = Some otpData \<and> maxAttempts \<le> attempts otpData"
  then have e: "\<not> success (fst (verifyOTP store orderId inputOTP now))
     \<and> (snd (verifyOTP store orderId inputOTP now) = store
         \<or> map_of (snd (verifyOTP store orderId inputOTP now)) orderId = None)"
    by (simp add: exhausted_unchanged)
  from e show "\<not> success (fst (verifyOTP store orderId inputOTP now))" ..
  from e show "snd (verifyOTP store orderId inputOTP now) = store
         \<or> map_of (snd (verifyOTP store orderId inputOTP now)) orderId = None" ..
next
  assume "map_of store orderId = Some otpData \<and> 0 \<le> attempts otpData
        \<and> c1 \<noteq> otp otpData \<and> c2 \<noteq> otp otpData \<and> c3 \<noteq> otp otpData"
  then have "map_of store orderId = Some otpData" "0 \<le> attempts otpData"
    "c1 \<noteq> otp otpData" "c2 \<noteq> otp otpData" "c3 \<noteq> otp otpData"
    by blast+
  then show "map success (fst (verify_seq store orderId
            [(c1, t1), (c2, t2), (c3, t3), (otp otpData, t4)]))
          = [False, False, False, False]"
    by (rule three_wrong_then_fail)
next
  assume h: "map_of store orderId = Some otpData \<and> attempts otpData = 0
        \<and> c1 \<noteq> otp otpData \<and> c2 \<noteq> otp otpData \<and> c3 \<noteq> otp otpData
        \<and> t1 \<le> expiresAt otpData \<and> t2 \<le> expiresAt otpData \<and> t3 \<le> expiresAt otpData
        \<and> t4 \<le> expiresAt otpData"
  then have x: "last (fst (verify_seq store orderId [(c1, t1), (c2, t2), (c3, t3), (otp otpData, t4)]))
          = \<lparr>success = False, message = ''Maximum OTP attempts exceeded'', remainingAttempts = 0\<rparr>
        \<and> map_of (snd (verify_seq store orderId
              [(c1, t1), (c2, t2), (c3, t3), (otp otpData, t4)])) orderId
          = Some (otpData\<lparr>attempts := 3\<rparr>)"
    by (intro three_wrong_then_exhausted) simp_all
  from x show "last (fst (verify_seq store orderId [(c1, t1), (c2, t2), (c3, t3), (otp otpData, t4)]))
          = \<lparr>success = False, message = ''Maximum OTP attempts exceeded'', remainingAttempts = 0\<rparr>" ..
  from x show "map_of (snd (verify_seq store orderId
              [(c1, t1), (c2, t2), (c3, t3), (otp otpData, t4)])) orderId
          = Some (otpData\<lparr>attempts := 3\<rparr>)" ..
qed

theorem attempts_never_exceed_max_witness:
  "attempts_bounded (run [(Generate (1::nat) ''9876543210'' (1 / 2) 0, 0), (Verify 1 ''0000'', 1),
       (Verify 1 ''0000'', 2), (Verify 1 ''0000'', 3), (Verify 1 ''5500'', 4), (Sweep, 5)])
   \<and> map_of [(1::nat, stale_record)] 1 = Some stale_record \<and> maxAttempts \<le> attempts stale_record
   \<and> \<not> success (fst (verifyOTP [(1::nat, stale_record)] 1 ''1234'' 1000))
   \<and> snd (verifyOTP [(1::nat, stale_record)] 1 ''1234'' 1000) = [(1, stale_record)]
   \<and> map_of [(1::nat, fresh_record)] 1 = Some fresh_record \<and> attempts fresh_record = 0
   \<and> ''0000'' \<noteq> otp fresh_record \<and> 4 \<le> expiresAt fresh_record
   \<and> map success (fst (verify_seq [(1::nat, fresh_record)] 1
         [(''0000'', 1), (''0000'', 2), (''0000'', 3), (''5500'', 4)]))
       = [False, False, False, False]
   \<and> last (fst (verify_seq [(1::nat, fresh_record)] 1
         [(''0000'', 1), (''0000'', 2), (''0000'', 3), (''5500'', 4)]))
       = \<lparr>success = False, message = ''Maximum OTP attempts exceeded'', remainingAttempts = 0\<rparr>
   \<and> map_of (snd (verify_seq [(1::nat, fresh_record)] 1
         [(''0000'', 1), (''0000'', 2), (''0000'', 3), (''5500'', 4)])) 1
       = Some (fresh_record\<lparr>attempts := 3\<rparr>)"
proof -
  have h1: "map_of [(1::nat, stale_record)] 1 = Some stale_record \<and> maxAttempts \<le> attempts stale_record"
    by (simp add: stale_record_def maxAttempts_def)
  have e1: "snd (verifyOTP [(1::nat, stale_record)] 1 ''1234'' 1000) = [(1, stale_record)]"
    by (simp add: verifyOTP_def stale_record_def maxAttempts_def)
  have h2: "map_of [(1::nat, fresh_record)] 1 = Some fresh_record \<and> attempts fresh_record = 0
      \<and> 0 \<le> attempts fresh_record
      \<and> ''0000'' \<noteq> otp fresh_record \<and> 1 \<le> expiresAt fresh_record \<and> 2 \<le> expiresAt fresh_record
      \<and> 3 \<le> expiresAt fresh_record \<and> 4 \<le> expiresAt fresh_record"
    by (simp add: fresh_record_def)
  have o: "otp fresh_record = ''5500''"
    by (simp add: fresh_record_def)
  note t1 = attempts_never_exceed_max [of
      "[(Generate (1::nat) ''9876543210'' (1 / 2) 0, 0), (Verify 1 ''0000'', 1),
        (Verify 1 ''0000'', 2), (Verify 1 ''0000'', 3), (Verify 1 ''5500'', 4), (Sweep, 5)]"
      "[(1::nat, stale_record)]" "(Sweep, 5)" 1 stale_record "''1234''" 1000]
  note t2 = attempts_never_exceed_max [of "[]"
      "[(1::nat, fresh_record)]" "(Sweep, 5)" 1 fresh_record "''1234''" 1000
      "''0000''" "''0000''" "''0000''" 1 2 3 4, unfolded o]
  from t1 t2 h1 h2 e1 show ?thesis
    by (simp only: o) blast
qed

text \<open>
  C6. On a store with one record per order, the sweep keeps exactly the records that are not
  past the grace window (\<open>now > expiresAt + 5 min\<close>, strictly) and deletes the others; its
  counter is the number of deleted records. The test does not depend on \<open>verified\<close>. A
  second sweep at the same time deletes nothing: it counts 0 and leaves the store unchanged.
\<close>

theorem cleanupExpiredOTPs_exact:
  assumes "wf_store store"
  shows "snd (cleanupExpiredOTPs store now) = filter (\<lambda>entry. \<not> past_grace now entry) store
       \<and> fst (cleanupExpiredOTPs store now) = length (filter (past_grace now) store)
       \<and> past_grace now (orderId, otpData\<lparr>verified := flag\<rparr>) = past_grace now (orderId, otpData)
       \<and> cleanupExpiredOTPs (snd (cleanupExpiredOTPs store now)) now
           = (0, snd (cleanupExpiredOTPs store now))"
proof -
  let ?kept = "filter (\<lambda>entry. \<not> past_grace now entry) store"
  have kept: "snd (cleanupExpiredOTPs store now) = ?kept"
    using assms by (rule cleanupExpiredOTPs_filter)
  have count: "fst (cleanupExpiredOTPs store now) = length (filter (past_grace now) store)"
    by (simp add: cleanupExpiredOTPs_def cleanup_loop_count)
  have "wf_store ?kept"
    using cleanupExpiredOTPs_wf [OF assms, of now] by (simp only: kept)
  then have "snd (cleanupExpiredOTPs ?kept now) = filter (\<lambda>entry. \<not> past_grace now entry) ?kept"
    by (rule cleanupExpiredOTPs_filter)
  then have again: "snd (cleanupExpiredOTPs ?kept now) = ?kept"
    by simp
  have "fst (cleanupExpiredOTPs ?kept now) = length (filter (past_grace now) ?kept)"
    by (simp add: cleanupExpiredOTPs_def cleanup_loop_count)
  then have none: "fst (cleanupExpiredOTPs ?kept now) = 0"
    by simp
  have "cleanupExpiredOTPs ?kept now = (0, ?kept)"
    using again none by (simp add: prod_eq_iff)
  with kept count show ?thesis
    by (simp add: past_grace_def)
qed

theorem cleanupExpiredOTPs_exact_witness:
  "wf_store [(1::nat, stale_record), (2, recent_record), (3, pending_record)]
   \<and> cleanupExpiredOTPs [(1::nat, stale_record), (2, recent_record), (3, pending_record)] 700000
       = (2, [(2, recent_record)])
   \<and> cleanupExpiredOTPs [(2::nat, recent_record)] 700000 = (0, [(2, recent_record)])"
proof -
  have w: "wf_store [(1::nat, stale_record), (2, recent_record), (3, pending_record)]"
    by (simp add: wf_store_def)
  have f: "filter (\<lambda>entry. \<not> past_grace 700000 entry)
        [(1::nat, stale_record), (2, recent_record), (3, pending_record)] = [(2, recent_record)]"
    "length (filter (past_grace 700000)
        [(1::nat, stale_record), (2, recent_record), (3, pending_record)]) = 2"
    by (simp_all add: past_grace_def stale_record_def recent_record_def pending_record_def)
  note t = cleanupExpiredOTPs_exact [OF w, of 700000 1 True stale_record, unfolded f]
  from t have a: "snd (cleanupExpiredOTPs
        [(1::nat, stale_record), (2, recent_record), (3, pending_record)] 700000) = [(2, recent_record)]"
    and b: "fst (cleanupExpiredOTPs
        [(1::nat, stale_record), (2, recent_record), (3, pending_record)] 700000) = 2"
    and c: "cleanupExpiredOTPs (snd (cleanupExpiredOTPs
        [(1::nat, stale_record), (2, recent_record), (3, pending_record)] 700000)) 700000
      = (0, snd (cleanupExpiredOTPs
        [(1::nat, stale_record), (2, recent_record), (3, pending_record)] 700000))"
    by blast+
  from w a b c [unfolded a] show ?thesis by (simp add: prod_eq_iff)
qed




text \<open>
  C10. The \<open>verified\<close> and \<open>expired\<close> counts of \<open>getStatistics\<close> can count the same
  record, so \<open>active\<close> can be negative. The state after \<open>generateOTP\<close>, a successful
  \<open>verifyOTP\<close> before the expiry and a sweep within the grace window holds one record, and
  at the time of that sweep, past the expiry, the statistics are \<open>total = 1\<close>,
  \<open>verified = 1\<close>, \<open>expired = 1\<close> and \<open>active = -1\<close>.
\<close>

theorem getStatistics_active_negative:
  assumes "t1 \<le> t0 + otpExpiry" and "t0 + otpExpiry < now"
    and "now \<le> t0 + otpExpiry + 5 * 60 * 1000"
  shows "stat_total (getStatistics (verified_then_expired orderId phoneNumber rnd t0 t1 now) now) = 1
       \<and> stat_verified (getStatistics (verified_then_expired orderId phoneNumber rnd t0 t1 now) now) = 1
       \<and> stat_expired (getStatistics (verified_then_expired orderId phoneNumber rnd t0 t1 now) now) = 1
       \<and> stat_active (getStatistics (verified_then_expired orderId phoneNumber rnd t0 t1 now) now) = - 1"
  using assms(2) by (simp add: verified_then_expired_store [OF assms(1,3)] getStatistics_def Let_def)

theorem getStatistics_active_negative_witness:
  "(0::int) \<le> 0 + otpExpiry \<and> 0 + otpExpiry < (300001::int)
   \<and> (300001::int) \<le> 0 + otpExpiry + 5 * 60 * 1000
   \<and> verified_then_expired (1::nat) ''9876543210'' (1 / 2) 0 0 300001
       = [(1, \<lparr>otp = ''5500'', phone = ''9876543210'', attempts = 1, generatedAt = 0,
               expiresAt = 300000, verified = True, verifiedAt = Some 0\<rparr>)]
   \<and> stat_total (getStatistics (verified_then_expired (1::nat) ''9876543210'' (1 / 2) 0 0 300001) 300001) = 1
   \<and> stat_verified (getStatistics (verified_then_expired (1::nat) ''9876543210'' (1 / 2) 0 0 300001) 300001) = 1
   \<and> stat_expired (getStatistics (verified_then_expired (1::nat) ''9876543210'' (1 / 2) 0 0 300001) 300001) = 1
   \<and> stat_active (getStatistics (verified_then_expired (1::nat) ''9876543210'' (1 / 2) 0 0 300001) 300001) = - 1"
proof -
  have h: "(0::int) \<le> 0 + otpExpiry" "0 + otpExpiry < (300001::int)"
    "(300001::int) \<le> 0 + otpExpiry + 5 * 60 * 1000"
    by (simp_all add: otpExpiry_def)
  have s: "verified_then_expired (1::nat) ''9876543210'' (1 / 2) 0 0 300001
       = [(1, \<lparr>otp = ''5500'', phone = ''9876543210'', attempts = 1, generatedAt = 0,
               expiresAt = 300000, verified = True, verifiedAt = Some 0\<rparr>)]"
    by (simp add: verified_then_expired_def run_def generateOTP_def verifyOTP_def Let_def
        cleanupExpiredOTPs_def otpExpiry_def maxAttempts_def code_half toString_def
        digits.simps digit_char_def)
  from getStatistics_active_negative [OF h, of 1 "''9876543210''" "1 / 2"] h s
  show ?thesis by blast
qed

end
